theory Spec2Isabelle
  imports Complex_Main
begin

section \<open>JavaScript values\<close>

text \<open>
  A JavaScript number is an IEEE double: a finite value, one of the two infinities, or NaN.
  The finite doubles are a subset of the reals and comparing two doubles compares their
  real values exactly, so a finite number is modelled by its real value. The two zeros are
  one value (no operation used below tells them apart). The one arithmetic operation
  that rounds, a difference, is given unrounded: it is read for its sign or not at all.
\<close>

datatype f64 = Fin real | PInf | NInf | NaN

text \<open>\<^verbatim>\<open>a < b\<close> on numbers; every comparison with NaN is false.\<close>

fun js_lt :: "f64 \<Rightarrow> f64 \<Rightarrow> bool" where
  "js_lt NaN b = False"
| "js_lt a NaN = False"
| "js_lt (Fin a) (Fin b) = (a < b)"
| "js_lt (Fin a) PInf = True"
| "js_lt (Fin a) NInf = False"
| "js_lt PInf b = False"
| "js_lt NInf NInf = False"
| "js_lt NInf b = True"

definition js_gt :: "f64 \<Rightarrow> f64 \<Rightarrow> bool" where
  "js_gt a b = js_lt b a"

text \<open>\<^verbatim>\<open>a === b\<close> on numbers: NaN is not equal to itself.\<close>

definition js_strict_eq :: "f64 \<Rightarrow> f64 \<Rightarrow> bool" where
  "js_strict_eq a b = (a \<noteq> NaN \<and> b \<noteq> NaN \<and> a = b)"

text \<open>\<^verbatim>\<open>Math.floor\<close>.\<close>

fun Math_floor :: "f64 \<Rightarrow> f64" where
  "Math_floor (Fin r) = Fin (of_int \<lfloor>r\<rfloor>)"
| "Math_floor x = x"

text \<open>
  \<^verbatim>\<open>a - b\<close>, unrounded. A sort comparator's result is read for its sign only, and
  rounding never changes the sign of a difference of two doubles.
\<close>

fun js_sub :: "f64 \<Rightarrow> f64 \<Rightarrow> f64" where
  "js_sub NaN b = NaN"
| "js_sub a NaN = NaN"
| "js_sub (Fin a) (Fin b) = Fin (a - b)"
| "js_sub (Fin a) PInf = NInf"
| "js_sub (Fin a) NInf = PInf"
| "js_sub PInf PInf = NaN"
| "js_sub PInf b = PInf"
| "js_sub NInf NInf = NaN"
| "js_sub NInf b = NInf"

text \<open>
  The conversion a store into an \<^verbatim>\<open>Int32Array\<close> applies (ToInt32): NaN and the
  infinities become 0, a finite number is truncated towards zero and wrapped modulo
  \<open>2^32\<close> into the signed range.
\<close>

definition wrap32 :: "int \<Rightarrow> int" where
  "wrap32 z = (let m = z mod 2 ^ 32 in if m \<ge> 2 ^ 31 then m - 2 ^ 32 else m)"

fun ToInt32 :: "f64 \<Rightarrow> int" where
  "ToInt32 (Fin r) = wrap32 (if r < 0 then - \<lfloor>- r\<rfloor> else \<lfloor>r\<rfloor>)"
| "ToInt32 x = 0"

text \<open>
  A \<^verbatim>\<open>Float32Array\<close> is given by the numbers it was filled from: each element is the
  float32 nearest to the number stored (the rounding is not computed here; an integer
  below \<open>2^24\<close> is stored exactly).
\<close>

datatype f32array = Float32Array "f64 list"

fun f32_length :: "f32array \<Rightarrow> nat" where
  "f32_length (Float32Array xs) = length xs"

text \<open>Reading a typed array: an index past the end gives \<^verbatim>\<open>undefined\<close> (here \<open>None\<close>).\<close>

definition arr_get :: "'a list \<Rightarrow> nat \<Rightarrow> 'a option" where
  "arr_get xs i = (if i < length xs then Some (xs ! i) else None)"

text \<open>The primitive values a hyperparameter can hold.\<close>

datatype jsval = JUndefined | JNull | JBool bool | JNum f64 | JStr string

fun truthy :: "jsval \<Rightarrow> bool" where
  "truthy JUndefined = False"
| "truthy JNull = False"
| "truthy (JBool b) = b"
| "truthy (JNum x) = (x \<noteq> NaN \<and> x \<noteq> Fin 0)"
| "truthy (JStr s) = (s \<noteq> [])"

text \<open>\<^verbatim>\<open>a || b\<close>.\<close>

definition js_or :: "jsval \<Rightarrow> jsval \<Rightarrow> jsval" where
  "js_or a b = (if truthy a then a else b)"

text \<open>
  The two conversions between strings and numbers are functions of the JavaScript
  runtime (ECMAScript's StringToNumber and Number::toString); the model takes them as
  given.
\<close>

record js_runtime =
  StringToNumber :: "string \<Rightarrow> f64"
  NumberToString :: "f64 \<Rightarrow> string"

fun ToNumber :: "js_runtime \<Rightarrow> jsval \<Rightarrow> f64" where
  "ToNumber rt JUndefined = NaN"
| "ToNumber rt JNull = Fin 0"
| "ToNumber rt (JBool b) = Fin (if b then 1 else 0)"
| "ToNumber rt (JNum x) = x"
| "ToNumber rt (JStr s) = StringToNumber rt s"

fun ToString :: "js_runtime \<Rightarrow> jsval \<Rightarrow> string" where
  "ToString rt JUndefined = ''undefined''"
| "ToString rt JNull = ''null''"
| "ToString rt (JBool b) = (if b then ''true'' else ''false'')"
| "ToString rt (JNum x) = NumberToString rt x"
| "ToString rt (JStr s) = s"

text \<open>
  A plain object with string keys: its entries in insertion order. Assigning to a key
  that is present replaces its value in place; a new key goes to the end.
\<close>

type_synonym jsobject = "(string \<times> jsval) list"

definition obj_get :: "jsobject \<Rightarrow> string \<Rightarrow> jsval" where
  "obj_get ob k = (case map_of ob k of None \<Rightarrow> JUndefined | Some v \<Rightarrow> v)"

definition obj_has :: "jsobject \<Rightarrow> string \<Rightarrow> bool" where
  "obj_has ob k = (k \<in> set (map fst ob))"

fun obj_set :: "jsobject \<Rightarrow> string \<Rightarrow> jsval \<Rightarrow> jsobject" where
  "obj_set [] k v = [(k, v)]"
| "obj_set (p # ps) k v = (if fst p = k then (k, v) # ps else p # obj_set ps k v)"

text \<open>\<^verbatim>\<open>Object.assign(target, p)\<close>.\<close>

definition obj_assign :: "jsobject \<Rightarrow> jsobject \<Rightarrow> jsobject" where
  "obj_assign target p = fold (\<lambda>(k, v) ob. obj_set ob k v) p target"

section \<open>Errors\<close>

text \<open>
  Every \<^verbatim>\<open>throw\<close> of the sources is a value of this type. The two lifecycle errors
  are the classes imported from the core package; the other constructors name the
  \<^verbatim>\<open>Error\<close>s by the place that throws them. \<open>TypeError\<close> and \<open>RangeError\<close> are
  the runtime's own (a property read on \<^verbatim>\<open>null\<close>, a negative typed-array length).
\<close>

datatype error =
    DisposedError
  | NotFittedError
  | NotLoaded
  | AlreadyDisposed string
  | NativeCallFailure string string
  | TaskObjectiveConflict
  | UnknownTask jsval
  | NonIntegerLabel f64 nat
  | LengthMismatch nat nat
  | InvalidX
  | ObjectiveMismatch jsval
  | TypeError
  | RangeError

section \<open>The loaded engine module\<close>

text \<open>
  The engine is opaque. Each exported function of the glue layer is a constructor of
  \<open>call\<close>; an argument the binding passes through a scratch block is shown by its value
  (the contents of sandbox memory are not modelled otherwise), a handle that is
  \<^verbatim>\<open>null\<close> arrives as 0. What a call returns (its status, and what the engine wrote
  to the out-pointers) is a \<open>reply\<close>, and an engine is any function from the calls made
  so far, the present one last, to a reply.
\<close>

datatype call =
    GetLastError
  | DatasetCreateFromMat f32array nat nat string
  | DatasetSetField int string f32array nat int
  | DatasetFree int
  | BoosterCreate int string
  | BoosterUpdate int
  | BoosterGetNumClasses int
  | BoosterFree int
  | BoosterPredict int f32array nat nat int int string
  | BoosterSaveModel int int
  | BoosterLoadModel "nat list"

record reply =
  status :: int
  out_i32 :: int
  out_f64 :: "f64 list"
  out_bytes :: "nat list"
  message :: string

text \<open>
  The module instance: the engine, the calls made so far, and the allocator's state.
  A scratch block is known by its address only (its size is not tracked); \<open>live\<close> lists
  the blocks allocated and not yet freed, and \<^verbatim>\<open>_malloc\<close> always returns an address
  never used before. The operations of the handle classes and of the model take the
  module that \<^verbatim>\<open>getWasm\<close> returns once it is loaded; the loader itself is modelled
  in its own section.
\<close>

record wasm =
  engine :: "call list \<Rightarrow> reply"
  trace :: "call list"
  live :: "nat list"
  brk :: nat

definition malloc :: "wasm \<Rightarrow> nat \<times> wasm" where
  "malloc w = (brk w, w\<lparr>live := brk w # live w, brk := Suc (brk w)\<rparr>)"

definition free :: "nat \<Rightarrow> wasm \<Rightarrow> wasm" where
  "free p w = w\<lparr>live := remove1 p (live w)\<rparr>"

definition native :: "call \<Rightarrow> wasm \<Rightarrow> reply \<times> wasm" where
  "native c w = (let t = trace w @ [c] in (engine w t, w\<lparr>trace := t\<rparr>))"

definition from_handle :: "int option \<Rightarrow> int" where
  "from_handle h = (case h of None \<Rightarrow> 0 | Some i \<Rightarrow> i)"

text \<open>
  \<^verbatim>\<open>withCString\<close>: the block is freed in a \<^verbatim>\<open>finally\<close>, so also when \<open>fn\<close> throws
  (\<open>fn\<close> returns its exception as a value).
\<close>

definition withCString :: "string \<Rightarrow> (nat \<Rightarrow> wasm \<Rightarrow> 'a \<times> wasm) \<Rightarrow> wasm \<Rightarrow> 'a \<times> wasm" where
  "withCString str fn w =
     (let (ptr, w1) = malloc w;
          (r, w2) = fn ptr w1
      in (r, free ptr w2))"

definition getLastError :: "wasm \<Rightarrow> string \<times> wasm" where
  "getLastError w = (let (r, w1) = native GetLastError w in (message r, w1))"

definition native_failure :: "string \<Rightarrow> wasm \<Rightarrow> (error + 'a) \<times> wasm" where
  "native_failure what w = (let (msg, w1) = getLastError w in (Inl (NativeCallFailure what msg), w1))"

section \<open>Dataset\<close>

text \<open>
  The registration with the \<^verbatim>\<open>FinalizationRegistry\<close> is left out of every class: it
  acts only on an object the program can no longer reach.
\<close>

record dataset =
  d_handle :: "int option"
  d_freed :: bool

definition Dataset_new :: "f32array \<Rightarrow> nat \<Rightarrow> nat \<Rightarrow> string \<Rightarrow> wasm \<Rightarrow> (error + dataset) \<times> wasm" where
  "Dataset_new data nrow ncol params w =
     (let (dataPtr, w1) = malloc w;
          (outPtr, w2) = malloc w1;
          (ret, w3) = withCString params
             (\<lambda>paramsPtr. native (DatasetCreateFromMat data nrow ncol params)) w2
      in if status ret \<noteq> 0
         then native_failure ''Dataset creation failed'' (free outPtr (free dataPtr w3))
         else (Inr \<lparr>d_handle = Some (out_i32 ret), d_freed = False\<rparr>,
               free outPtr (free dataPtr w3)))"

definition Dataset_handle :: "dataset \<Rightarrow> error + int option" where
  "Dataset_handle d = (if d_freed d then Inl (AlreadyDisposed ''Dataset'') else Inr (d_handle d))"

definition Dataset_setLabel :: "dataset \<Rightarrow> f32array \<Rightarrow> wasm \<Rightarrow> (error + unit) \<times> wasm" where
  "Dataset_setLabel d arr w =
     (let (ptr, w1) = malloc w;
          (r, w2) = withCString ''label''
             (\<lambda>fieldPtr wa. case Dataset_handle d of
                  Inl e \<Rightarrow> (Inl e, wa)
                | Inr h \<Rightarrow> (let (ret, wb) =
                      native (DatasetSetField (from_handle h) ''label'' arr (f32_length arr) 0) wa
                    in (Inr ret, wb))) w1
      in case r of
           Inl e \<Rightarrow> (Inl e, w2)
         | Inr ret \<Rightarrow>
             (let w3 = free ptr w2
              in if status ret \<noteq> 0 then native_failure ''Dataset setLabel failed'' w3
                 else (Inr (), w3)))"

definition Dataset_dispose :: "dataset \<Rightarrow> wasm \<Rightarrow> dataset \<times> wasm" where
  "Dataset_dispose d w =
     (if d_freed d then (d, w)
      else (let (r, w1) = native (DatasetFree (from_handle (d_handle d))) w
            in (d\<lparr>d_handle := None, d_freed := True\<rparr>, w1)))"

section \<open>Booster\<close>

record booster =
  b_handle :: "int option"
  b_freed :: bool

text \<open>The constructor's training path (the path with the load sentinel is \<open>Booster_loaded\<close>).\<close>

definition Booster_new :: "int option \<Rightarrow> string \<Rightarrow> wasm \<Rightarrow> (error + booster) \<times> wasm" where
  "Booster_new trainDataHandle paramsStr w =
     (let (outPtr, w1) = malloc w;
          (ret, w2) = withCString paramsStr
             (\<lambda>paramsPtr. native (BoosterCreate (from_handle trainDataHandle) paramsStr)) w1
      in if status ret \<noteq> 0
         then native_failure ''Booster creation failed'' (free outPtr w2)
         else (Inr \<lparr>b_handle = Some (out_i32 ret), b_freed = False\<rparr>, free outPtr w2))"

definition Booster_loaded :: "int \<Rightarrow> booster" where
  "Booster_loaded h = \<lparr>b_handle = Some h, b_freed = False\<rparr>"

definition Booster_handle :: "booster \<Rightarrow> error + int option" where
  "Booster_handle b = (if b_freed b then Inl (AlreadyDisposed ''Booster'') else Inr (b_handle b))"

text \<open>
  \<^verbatim>\<open>update\<close> reads \<^verbatim>\<open>this.handle\<close> after it has allocated \<open>finishedPtr\<close>; when the
  getter throws, the function is left with the block still allocated.
\<close>

definition Booster_update :: "booster \<Rightarrow> wasm \<Rightarrow> (error + bool) \<times> wasm" where
  "Booster_update b w =
     (let (finishedPtr, w1) = malloc w
      in case Booster_handle b of
           Inl e \<Rightarrow> (Inl e, w1)
         | Inr h \<Rightarrow>
             (let (ret, w2) = native (BoosterUpdate (from_handle h)) w1;
                  finished = out_i32 ret;
                  w3 = free finishedPtr w2
              in if status ret \<noteq> 0 then native_failure ''Booster update failed'' w3
                 else (Inr (finished \<noteq> 0), w3)))"

definition Booster_getNumClasses :: "booster \<Rightarrow> wasm \<Rightarrow> (error + int) \<times> wasm" where
  "Booster_getNumClasses b w =
     (let (outPtr, w1) = malloc w
      in case Booster_handle b of
           Inl e \<Rightarrow> (Inl e, w1)
         | Inr h \<Rightarrow>
             (let (ret, w2) = native (BoosterGetNumClasses (from_handle h)) w1;
                  nc = out_i32 ret;
                  w3 = free outPtr w2
              in if status ret \<noteq> 0 then native_failure ''Booster getNumClasses failed'' w3
                 else (Inr nc, w3)))"

text \<open>
  \<^verbatim>\<open>predict\<close> with its default options (\<open>predictType = 0\<close>, \<open>numIteration = 0\<close>), as
  the model calls it. The reply's \<open>out_f64\<close> is the output buffer up to the length the
  engine reported.
\<close>

definition Booster_predict :: "booster \<Rightarrow> f32array \<Rightarrow> nat \<Rightarrow> nat \<Rightarrow> wasm \<Rightarrow> (error + f64 list) \<times> wasm" where
  "Booster_predict b data nrow ncol w =
     (let (dataPtr, w1) = malloc w;
          (outLenPtr, w2) = malloc w1;
          (outResultPtr, w3) = malloc w2;
          (r, w4) = withCString ''''
             (\<lambda>paramPtr wa. case Booster_handle b of
                  Inl e \<Rightarrow> (Inl e, wa)
                | Inr h \<Rightarrow> (let (ret, wb) =
                      native (BoosterPredict (from_handle h) data nrow ncol 0 0 '''') wa
                    in (Inr ret, wb))) w3
      in case r of
           Inl e \<Rightarrow> (Inl e, w4)
         | Inr ret \<Rightarrow>
             (let w5 = free dataPtr w4
              in if status ret \<noteq> 0
                 then native_failure ''Booster predict failed'' (free outResultPtr (free outLenPtr w5))
                 else (Inr (out_f64 ret), free outResultPtr (free outLenPtr w5))))"

text \<open>
  \<^verbatim>\<open>saveModel\<close>: the two passes. The second reply's \<open>out_i32\<close> is the length written
  and \<open>out_bytes\<close> the buffer; a length below 1 makes \<^verbatim>\<open>new Uint8Array(actualLen - 1)\<close>
  throw, before \<open>bufPtr\<close> is freed.
\<close>

definition Booster_saveModel :: "booster \<Rightarrow> wasm \<Rightarrow> (error + nat list) \<times> wasm" where
  "Booster_saveModel b w =
     (let (outLenPtr, w1) = malloc w
      in case Booster_handle b of
           Inl e \<Rightarrow> (Inl e, w1)
         | Inr h \<Rightarrow>
             (let (ret, w2) = native (BoosterSaveModel (from_handle h) 0) w1
              in if status ret \<noteq> 0
                 then native_failure ''Booster saveModel (size query) failed'' (free outLenPtr w2)
                 else
                   (let bufLen = out_i32 ret;
                        (bufPtr, w3) = malloc w2;
                        (ret2, w4) = native (BoosterSaveModel (from_handle h) bufLen) w3
                    in if status ret2 \<noteq> 0
                       then native_failure ''Booster saveModel failed'' (free bufPtr (free outLenPtr w4))
                       else
                         (let actualLen = out_i32 ret2;
                              w5 = free outLenPtr w4
                          in if actualLen - 1 < 0 then (Inl RangeError, w5)
                             else (Inr (take (nat (actualLen - 1)) (out_bytes ret2)), free bufPtr w5)))))"

definition Booster_loadModel :: "nat list \<Rightarrow> wasm \<Rightarrow> (error + booster) \<times> wasm" where
  "Booster_loadModel modelBytes w =
     (let (bufPtr, w1) = malloc w;
          (outIterPtr, w2) = malloc w1;
          (outPtr, w3) = malloc w2;
          (ret, w4) = native (BoosterLoadModel modelBytes) w3;
          w5 = free outIterPtr (free bufPtr w4)
      in if status ret \<noteq> 0
         then native_failure ''Booster loadModel failed'' (free outPtr w5)
         else (Inr (Booster_loaded (out_i32 ret)), free outPtr w5))"

definition Booster_dispose :: "booster \<Rightarrow> wasm \<Rightarrow> booster \<times> wasm" where
  "Booster_dispose b w =
     (if b_freed b then (b, w)
      else (let (r, w1) = native (BoosterFree (from_handle (b_handle b))) w
            in (b\<lparr>b_handle := None, b_freed := True\<rparr>, w1)))"

section \<open>LGBModel\<close>

record lgbmodel =
  m_booster :: "booster option"
  m_freed :: bool
  m_params :: jsobject
  m_fitted :: bool
  m_nrClass :: nat
  m_classes :: "int list option"

definition CLASSIFIER_OBJECTIVES :: "jsval list" where
  "CLASSIFIER_OBJECTIVES =
     [JStr ''binary'', JStr ''multiclass'', JStr ''multiclassova'', JStr ''cross_entropy'']"

definition PROBA_OBJECTIVES :: "jsval list" where
  "PROBA_OBJECTIVES = [JStr ''binary'', JStr ''multiclass'', JStr ''multiclassova'']"

definition WLEARN_PARAMS :: "string list" where
  "WLEARN_PARAMS = [''numRound'', ''coerce'', ''task'']"

text \<open>The constructor: the path \<^verbatim>\<open>create\<close> takes, and the path of a loaded bundle.\<close>

definition LGBModel_new :: "jsobject \<Rightarrow> lgbmodel" where
  "LGBModel_new params =
     \<lparr>m_booster = None, m_freed = False, m_params = params, m_fitted = False,
      m_nrClass = 0, m_classes = None\<rparr>"

definition LGBModel_loaded :: "booster \<Rightarrow> jsobject \<Rightarrow> nat \<Rightarrow> f64 list option \<Rightarrow> lgbmodel" where
  "LGBModel_loaded b params nrClass classes =
     \<lparr>m_booster = Some b, m_freed = False, m_params = params, m_fitted = True,
      m_nrClass = nrClass, m_classes = map_option (map ToInt32) classes\<rparr>"

text \<open>
  The matrix argument: the typed form \<^verbatim>\<open>{ data, rows, cols }\<close> (with \<open>rows\<close> and
  \<open>cols\<close> natural numbers), an array of rows of numbers, or anything else.
\<close>

datatype xinput = TypedMatrix "f64 list" nat nat | Rows "f64 list list" | OtherX

definition num_of :: "f64 option \<Rightarrow> f64" where
  "num_of v = (case v of None \<Rightarrow> NaN | Some x \<Rightarrow> x)"

fun normalizeX :: "xinput \<Rightarrow> error + (f32array \<times> nat \<times> nat)" where
  "normalizeX (TypedMatrix data rows cols) = Inr (Float32Array data, rows, cols)"
| "normalizeX (Rows []) = Inl InvalidX"
| "normalizeX (Rows (r0 # rs)) =
     (let rows = length (r0 # rs); cols = length r0
      in Inr (Float32Array
            (concat (map (\<lambda>row. map (\<lambda>j. num_of (arr_get row j)) [0..<cols]) (r0 # rs))),
          rows, cols))"
| "normalizeX OtherX = Inl InvalidX"

definition ensureNotDisposed :: "lgbmodel \<Rightarrow> error + unit" where
  "ensureNotDisposed m = (if m_freed m then Inl DisposedError else Inr ())"

definition ensureFitted :: "lgbmodel \<Rightarrow> error + unit" where
  "ensureFitted m =
     (if m_freed m then Inl DisposedError
      else if \<not> m_fitted m then Inl NotFittedError
      else Inr ())"

definition isClassifier :: "lgbmodel \<Rightarrow> bool" where
  "isClassifier m =
     (js_or (obj_get (m_params m) ''objective'') (JStr ''regression'') \<in> set CLASSIFIER_OBJECTIVES)"

text \<open>
  A \<^verbatim>\<open>Set\<close> of numbers, by its elements in insertion order. The label vector \<open>y\<close> is
  the vector \<^verbatim>\<open>normalizeY\<close> of the core package returns.
\<close>

definition set_add :: "'a list \<Rightarrow> 'a \<Rightarrow> 'a list" where
  "set_add u v = (if v \<in> set u then u else u @ [v])"

definition resolveTask :: "lgbmodel \<Rightarrow> f64 list \<Rightarrow> error + lgbmodel" where
  "resolveTask m y =
     (let task = obj_get (m_params m) ''task''
      in if \<not> truthy task then Inr m
         else if truthy (obj_get (m_params m) ''objective'') then Inl TaskObjectiveConflict
         else if task = JStr ''classification'' then
           (let unique = fold (\<lambda>v u. set_add u v) y []
            in if length unique > 2
               then Inr (m\<lparr>m_params :=
                      obj_set (obj_set (m_params m) ''objective'' (JStr ''multiclass''))
                        ''num_class'' (JNum (Fin (real (length unique))))\<rparr>)
               else Inr (m\<lparr>m_params := obj_set (m_params m) ''objective'' (JStr ''binary'')\<rparr>))
         else if task = JStr ''regression''
         then Inr (m\<lparr>m_params := obj_set (m_params m) ''objective'' (JStr ''regression'')\<rparr>)
         else Inl (UnknownTask task))"

text \<open>
  \<^verbatim>\<open>Array.prototype.sort\<close> with a comparator: a stable sort, here by insertion. An
  element goes after those the comparator does not put it before.
\<close>

fun insert_by :: "('a \<Rightarrow> 'a \<Rightarrow> f64) \<Rightarrow> 'a \<Rightarrow> 'a list \<Rightarrow> 'a list" where
  "insert_by cmp x [] = [x]"
| "insert_by cmp x (y # ys) =
     (if js_gt (cmp x y) (Fin 0) then y # insert_by cmp x ys else x # y # ys)"

fun array_sort :: "('a \<Rightarrow> 'a \<Rightarrow> f64) \<Rightarrow> 'a list \<Rightarrow> 'a list" where
  "array_sort cmp [] = []"
| "array_sort cmp (x # xs) = insert_by cmp x (array_sort cmp xs)"

text \<open>The classifier branch of \<^verbatim>\<open>fit\<close>: the validation loop, from index \<open>i\<close> on.\<close>

fun collect_labels :: "f64 list \<Rightarrow> nat \<Rightarrow> f64 list \<Rightarrow> error + f64 list" where
  "collect_labels [] i unique = Inr unique"
| "collect_labels (v # vs) i unique =
     (if \<not> js_strict_eq v (Math_floor v) then Inl (NonIntegerLabel v i)
      else collect_labels vs (Suc i) (set_add unique v))"

text \<open>\<^verbatim>\<open>classMap\<close>: each sorted value set to its index, in index order.\<close>

definition classMap :: "f64 list \<Rightarrow> f64 \<Rightarrow> nat option" where
  "classMap srt = fold (\<lambda>i mp. mp(srt ! i \<mapsto> i)) [0..<length srt] Map.empty"

definition remap :: "f64 list \<Rightarrow> f64 list \<Rightarrow> f32array" where
  "remap srt yNorm =
     Float32Array (map (\<lambda>v. case classMap srt v of None \<Rightarrow> NaN | Some i \<Rightarrow> Fin (real i)) yNorm)"

text \<open>
  The label block of \<^verbatim>\<open>fit\<close>: the new class list and class count, and the training
  labels. A label that is not an integer throws before anything is stored.
\<close>

definition prepare_labels :: "jsval \<Rightarrow> f64 list \<Rightarrow> lgbmodel \<Rightarrow> error + (lgbmodel \<times> f32array)" where
  "prepare_labels obj yNorm m =
     (if obj \<in> set CLASSIFIER_OBJECTIVES then
        (case collect_labels yNorm 0 [] of
           Inl e \<Rightarrow> Inl e
         | Inr unique \<Rightarrow>
             (let srt = array_sort js_sub unique
              in Inr (m\<lparr>m_nrClass := length srt, m_classes := Some (map ToInt32 srt)\<rparr>,
                      remap srt yNorm)))
      else Inr (m\<lparr>m_nrClass := 0, m_classes := None\<rparr>, Float32Array yNorm))"

text \<open>The parameter string of \<^verbatim>\<open>fit\<close>: \<open>key=value\<close> pairs joined by spaces.\<close>

fun join :: "string \<Rightarrow> string list \<Rightarrow> string" where
  "join sep [] = []"
| "join sep [x] = x"
| "join sep (x # xs) = x @ sep @ join sep xs"

definition build_lgbParams :: "jsobject \<Rightarrow> jsval \<Rightarrow> nat \<Rightarrow> jsobject" where
  "build_lgbParams params obj nrClass =
     (let p0 = fold (\<lambda>(key, val) ob. if key \<notin> set WLEARN_PARAMS then obj_set ob key val else ob)
                 params [];
          p1 = (if \<not> obj_has p0 ''objective'' then obj_set p0 ''objective'' obj else p0);
          p2 = (if \<not> obj_has p1 ''verbosity'' then obj_set p1 ''verbosity'' (JNum (Fin (- 1)))
                else p1)
      in if (obj = JStr ''multiclass'' \<or> obj = JStr ''multiclassova'')
            \<and> \<not> obj_has p2 ''num_class'' \<and> nrClass > 0
         then obj_set p2 ''num_class'' (JNum (Fin (real nrClass)))
         else p2)"

definition paramStr_of :: "js_runtime \<Rightarrow> jsobject \<Rightarrow> string" where
  "paramStr_of rt lgbParams = join '' '' (map (\<lambda>(k, v). k @ ''='' @ ToString rt v) lgbParams)"

text \<open>
  The training loop \<^verbatim>\<open>for (let i = 0; i < numRound; i++) booster.update()\<close>. The
  counter is a double: \<open>i++\<close> is exact up to \<open>2^53\<close> and leaves \<open>2^53\<close> unchanged.
  The value \<^verbatim>\<open>update\<close> returns is dropped. With a bound the counter never reaches,
  the loop ends only when an update throws.
\<close>

definition js_incr :: "nat \<Rightarrow> nat" where
  "js_incr i = (if i < 2 ^ 53 then Suc i else i)"

partial_function (option) train_loop ::
    "f64 \<Rightarrow> booster \<Rightarrow> nat \<Rightarrow> wasm \<Rightarrow> ((error + unit) \<times> wasm) option" where
  "train_loop numRound b i w =
     (if js_lt (Fin (real i)) numRound
      then (case Booster_update b w of
              (Inl e, w1) \<Rightarrow> Some (Inl e, w1)
            | (Inr finished, w1) \<Rightarrow> train_loop numRound b (js_incr i) w1)
      else Some (Inr (), w))"

text \<open>
  The engine part of \<^verbatim>\<open>fit\<close>: the Dataset, its labels, the Booster, the rounds, and
  the release of the Dataset. An exception leaves what was created so far as it is.
\<close>

definition train ::
    "f32array \<Rightarrow> nat \<Rightarrow> nat \<Rightarrow> string \<Rightarrow> f32array \<Rightarrow> f64 \<Rightarrow> wasm \<Rightarrow> ((error + booster) \<times> wasm) option" where
  "train xData rows cols paramStr yTrain numRound w =
     (case Dataset_new xData rows cols paramStr w of
        (Inl e, w1) \<Rightarrow> Some (Inl e, w1)
      | (Inr ds, w1) \<Rightarrow>
     (case Dataset_setLabel ds yTrain w1 of
        (Inl e, w2) \<Rightarrow> Some (Inl e, w2)
      | (Inr u, w2) \<Rightarrow>
     (case Dataset_handle ds of
        Inl e \<Rightarrow> Some (Inl e, w2)
      | Inr h \<Rightarrow>
     (case Booster_new h paramStr w2 of
        (Inl e, w3) \<Rightarrow> Some (Inl e, w3)
      | (Inr booster, w3) \<Rightarrow>
     (case train_loop numRound booster 0 w3 of
        None \<Rightarrow> None
      | Some (Inl e, w4) \<Rightarrow> Some (Inl e, w4)
      | Some (Inr u, w4) \<Rightarrow>
          (let (ds', w5) = Dataset_dispose ds w4 in Some (Inr booster, w5)))))))"

definition dispose_previous :: "lgbmodel \<Rightarrow> wasm \<Rightarrow> lgbmodel \<times> wasm" where
  "dispose_previous m w =
     (case m_booster m of
        None \<Rightarrow> (m, w)
      | Some b \<Rightarrow> (let (b', w1) = Booster_dispose b w in (m\<lparr>m_booster := None\<rparr>, w1)))"

text \<open>
  \<^verbatim>\<open>fit\<close>. The result is the exception or the normal return, with the model and the
  module as the call leaves them; \<open>None\<close> is a call that never returns.
\<close>

definition fit ::
    "js_runtime \<Rightarrow> lgbmodel \<Rightarrow> xinput \<Rightarrow> f64 list \<Rightarrow> wasm \<Rightarrow> ((error + unit) \<times> lgbmodel \<times> wasm) option" where
  "fit rt m X y w =
     (case ensureNotDisposed m of
        Inl e \<Rightarrow> Some (Inl e, m, w)
      | Inr u \<Rightarrow>
     (case resolveTask m y of
        Inl e \<Rightarrow> Some (Inl e, m, w)
      | Inr m1 \<Rightarrow>
     (let (m2, w1) = dispose_previous m1 w
      in case normalizeX X of
        Inl e \<Rightarrow> Some (Inl e, m2, w1)
      | Inr (xData, rows, cols) \<Rightarrow>
     (let obj = js_or (obj_get (m_params m2) ''objective'') (JStr ''regression'')
      in case prepare_labels obj y m2 of
        Inl e \<Rightarrow> Some (Inl e, m2, w1)
      | Inr (m3, yTrain) \<Rightarrow>
          if f32_length yTrain \<noteq> rows
          then Some (Inl (LengthMismatch (f32_length yTrain) rows), m3, w1)
          else
            (let numRound = js_or (obj_get (m_params m3) ''numRound'') (JNum (Fin 100));
                 paramStr = paramStr_of rt (build_lgbParams (m_params m3) obj (m_nrClass m3))
             in case train xData rows cols paramStr yTrain (ToNumber rt numRound) w1 of
                  None \<Rightarrow> None
                | Some (Inl e, w2) \<Rightarrow> Some (Inl e, m3, w2)
                | Some (Inr booster, w2) \<Rightarrow>
                    Some (Inr (), m3\<lparr>m_booster := Some booster, m_fitted := True\<rparr>, w2))))))"

text \<open>
  Decoding in \<^verbatim>\<open>predict\<close>. \<open>class_at\<close> is the read \<^verbatim>\<open>this.#classes[k]\<close> stored into the
  \<^verbatim>\<open>Float64Array\<close> result: an index past the end reads \<^verbatim>\<open>undefined\<close> and stores NaN.
\<close>

definition class_at :: "int list \<Rightarrow> nat \<Rightarrow> f64" where
  "class_at cs k = (case arr_get cs k of None \<Rightarrow> NaN | Some c \<Rightarrow> Fin (of_int c))"

definition threshold_index :: "f64 list \<Rightarrow> nat \<Rightarrow> nat" where
  "threshold_index rawPreds i = (if js_gt (num_of (arr_get rawPreds i)) (Fin 0.5) then 1 else 0)"

text \<open>The inner loop of the multiclass branch, for row \<open>i\<close>: \<open>best\<close> after the scan.\<close>

definition argmax_scan :: "f64 list \<Rightarrow> nat \<Rightarrow> nat \<Rightarrow> nat" where
  "argmax_scan rawPreds nc i =
     fold (\<lambda>c best. if js_gt (num_of (arr_get rawPreds (i * nc + c)))
                              (num_of (arr_get rawPreds (i * nc + best)))
                     then c else best)
          [1..<nc] 0"

definition decode_row :: "jsval \<Rightarrow> nat \<Rightarrow> f64 list \<Rightarrow> nat \<Rightarrow> nat" where
  "decode_row obj nc rawPreds i =
     (if obj = JStr ''binary'' then threshold_index rawPreds i
      else if obj = JStr ''multiclass'' \<or> obj = JStr ''multiclassova'' then argmax_scan rawPreds nc i
      else threshold_index rawPreds i)"

text \<open>With no class list (\<^verbatim>\<open>null\<close>) the first row's read throws.\<close>

definition decode :: "jsval \<Rightarrow> int list option \<Rightarrow> nat \<Rightarrow> f64 list \<Rightarrow> nat \<Rightarrow> error + f64 list" where
  "decode obj classes nc rawPreds rows =
     (case classes of
        None \<Rightarrow> if rows = 0 then Inr [] else Inl TypeError
      | Some cs \<Rightarrow> Inr (map (\<lambda>i. class_at cs (decode_row obj nc rawPreds i)) [0..<rows]))"

definition predict :: "lgbmodel \<Rightarrow> xinput \<Rightarrow> wasm \<Rightarrow> (error + f64 list) \<times> wasm" where
  "predict m X w =
     (case ensureFitted m of
        Inl e \<Rightarrow> (Inl e, w)
      | Inr u \<Rightarrow>
     (case normalizeX X of
        Inl e \<Rightarrow> (Inl e, w)
      | Inr (xData, rows, cols) \<Rightarrow>
     (case m_booster m of
        None \<Rightarrow> (Inl TypeError, w)
      | Some b \<Rightarrow>
     (case Booster_predict b xData rows cols w of
        (Inl e, w1) \<Rightarrow> (Inl e, w1)
      | (Inr rawPreds, w1) \<Rightarrow>
          (let obj = js_or (obj_get (m_params m) ''objective'') (JStr ''regression'')
           in if obj \<notin> set CLASSIFIER_OBJECTIVES then (Inr rawPreds, w1)
              else (decode obj (m_classes m) (m_nrClass m) rawPreds rows, w1))))))"

text \<open>
  \<^verbatim>\<open>predictProba\<close>. The complement \<open>1 - p1\<close> of the binary branch is given unrounded;
  nothing below reads it.
\<close>

definition predictProba :: "lgbmodel \<Rightarrow> xinput \<Rightarrow> wasm \<Rightarrow> (error + f64 list) \<times> wasm" where
  "predictProba m X w =
     (case ensureFitted m of
        Inl e \<Rightarrow> (Inl e, w)
      | Inr u \<Rightarrow>
     (let obj = js_or (obj_get (m_params m) ''objective'') (JStr ''regression'')
      in if obj \<notin> set PROBA_OBJECTIVES then (Inl (ObjectiveMismatch obj), w)
         else
     (case normalizeX X of
        Inl e \<Rightarrow> (Inl e, w)
      | Inr (xData, rows, cols) \<Rightarrow>
     (case m_booster m of
        None \<Rightarrow> (Inl TypeError, w)
      | Some b \<Rightarrow>
     (case Booster_predict b xData rows cols w of
        (Inl e, w1) \<Rightarrow> (Inl e, w1)
      | (Inr rawPreds, w1) \<Rightarrow>
          if obj = JStr ''binary''
          then (Inr (concat (map (\<lambda>i. let p1 = num_of (arr_get rawPreds i)
                                       in [js_sub (Fin 1) p1, p1]) [0..<rows])), w1)
          else (Inr rawPreds, w1))))))"

text \<open>
  \<^verbatim>\<open>score\<close>. The accuracy is returned as the count of exact matches and the number
  of predictions it is divided by; the coefficient of determination is a rounding
  reduction of the labels and the predictions, returned as these two vectors.
\<close>

datatype score_value = Accuracy nat nat | RSquared "f64 list" "f64 list"

definition score :: "lgbmodel \<Rightarrow> xinput \<Rightarrow> f64 list \<Rightarrow> wasm \<Rightarrow> (error + score_value) \<times> wasm" where
  "score m X y w =
     (case predict m X w of
        (Inl e, w1) \<Rightarrow> (Inl e, w1)
      | (Inr preds, w1) \<Rightarrow>
          if \<not> isClassifier m then (Inr (RSquared y preds), w1)
          else (Inr (Accuracy
                  (length (filter (\<lambda>i. js_strict_eq (preds ! i) (num_of (arr_get y i)))
                     [0..<length preds]))
                  (length preds)), w1))"

text \<open>
  \<^verbatim>\<open>save\<close>: what is handed to \<^verbatim>\<open>encodeBundle\<close> of the core package, the manifest and
  the one blob.
\<close>

record saved =
  typeId :: string
  params :: jsobject
  meta_nrClass :: nat
  meta_classes :: "int list"
  meta_objective :: jsval
  model_blob :: "nat list"

definition getParams :: "lgbmodel \<Rightarrow> jsobject" where
  "getParams m = m_params m"

definition setParams :: "lgbmodel \<Rightarrow> jsobject \<Rightarrow> lgbmodel" where
  "setParams m p = m\<lparr>m_params := obj_assign (m_params m) p\<rparr>"

definition save :: "lgbmodel \<Rightarrow> wasm \<Rightarrow> (error + saved) \<times> wasm" where
  "save m w =
     (case ensureFitted m of
        Inl e \<Rightarrow> (Inl e, w)
      | Inr u \<Rightarrow>
     (case m_booster m of
        None \<Rightarrow> (Inl TypeError, w)
      | Some b \<Rightarrow>
     (case Booster_saveModel b w of
        (Inl e, w1) \<Rightarrow> (Inl e, w1)
      | (Inr modelBytes, w1) \<Rightarrow>
          (Inr \<lparr>typeId = (if isClassifier m then ''wlearn.lightgbm.classifier@1''
                            else ''wlearn.lightgbm.regressor@1''),
                 params = getParams m,
                 meta_nrClass = m_nrClass m,
                 meta_classes = (case m_classes m of None \<Rightarrow> [] | Some cs \<Rightarrow> cs),
                 meta_objective = js_or (obj_get (m_params m) ''objective'') (JStr ''regression''),
                 model_blob = modelBytes\<rparr>, w1))))"

definition dispose :: "lgbmodel \<Rightarrow> wasm \<Rightarrow> lgbmodel \<times> wasm" where
  "dispose m w =
     (if m_freed m then (m, w)
      else (let w1 = (case m_booster m of None \<Rightarrow> w | Some b \<Rightarrow> snd (Booster_dispose b w))
            in (m\<lparr>m_freed := True, m_booster := None, m_fitted := False\<rparr>, w1)))"

definition isFitted :: "lgbmodel \<Rightarrow> bool" where
  "isFitted m = (m_fitted m \<and> \<not> m_freed m)"

section \<open>The module loader\<close>

text \<open>
  The two module variables of the loader, \<open>wasmModule\<close> and \<open>loading\<close> (the promise of
  the one initialisation, with the state it is in), and a count of the initialisations
  started, which the model keeps. Nothing runs between the assignment to \<open>wasmModule\<close>
  and the fulfilment of \<open>loading\<close>, so the two are one step.
\<close>

datatype 'm promise = Pending | Fulfilled 'm | Rejected

record 'm loader =
  wasmModule :: "'m option"
  loading :: "'m promise option"
  inits :: nat

definition loader0 :: "'m loader" where
  "loader0 = \<lparr>wasmModule = None, loading = None, inits = 0\<rparr>"

text \<open>
  What a call of \<^verbatim>\<open>loadLGB\<close> returns: the module that is already there, or the
  promise \<open>loading\<close>, which it shares with every other call that got it.
\<close>

datatype 'm ticket = Ready 'm | Shared

definition loadLGB :: "'m loader \<Rightarrow> 'm ticket \<times> 'm loader" where
  "loadLGB s =
     (case wasmModule s of
        Some m \<Rightarrow> (Ready m, s)
      | None \<Rightarrow>
          (case loading s of
             Some p \<Rightarrow> (Shared, s)
           | None \<Rightarrow> (Shared, s\<lparr>loading := Some Pending, inits := Suc (inits s)\<rparr>)))"

text \<open>
  The initialisation in flight ends: \<^verbatim>\<open>createLightGBM\<close> fulfils with a module
  instance, or it (or the \<^verbatim>\<open>require\<close> before it) throws. Neither can happen when no
  initialisation is in flight.
\<close>

definition init_done :: "'m \<Rightarrow> 'm loader \<Rightarrow> 'm loader" where
  "init_done m s =
     (if loading s = Some Pending then s\<lparr>wasmModule := Some m, loading := Some (Fulfilled m)\<rparr>
      else s)"

definition init_failed :: "'m loader \<Rightarrow> 'm loader" where
  "init_failed s = (if loading s = Some Pending then s\<lparr>loading := Some Rejected\<rparr> else s)"

definition getWasm :: "'m loader \<Rightarrow> error + 'm" where
  "getWasm s = (case wasmModule s of None \<Rightarrow> Inl NotLoaded | Some m \<Rightarrow> Inr m)"

text \<open>
  A run of a process: calls of \<^verbatim>\<open>loadLGB\<close> and the end of the initialisation, in any
  order. \<open>run\<close> returns what each call got, in call order, and the final state.
\<close>

datatype 'm event = LoadCall | InitDone 'm | InitFailed

fun run :: "'m event list \<Rightarrow> 'm loader \<Rightarrow> 'm ticket list \<times> 'm loader" where
  "run [] s = ([], s)"
| "run (LoadCall # evs) s =
     (let (t, s1) = loadLGB s; (ts, s2) = run evs s1 in (t # ts, s2))"
| "run (InitDone m # evs) s = run evs (init_done m s)"
| "run (InitFailed # evs) s = run evs (init_failed s)"

text \<open>The module a call's promise has been fulfilled with, if it has been.\<close>

fun resolved :: "'m loader \<Rightarrow> 'm ticket \<Rightarrow> 'm option" where
  "resolved s (Ready m) = Some m"
| "resolved s Shared = (case loading s of Some (Fulfilled m) \<Rightarrow> Some m | _ \<Rightarrow> None)"

section \<open>Notions the statements use\<close>

text \<open>The objective a model works under: \<^verbatim>\<open>this.#params.objective || 'regression'\<close>.\<close>

definition objective_of :: "lgbmodel \<Rightarrow> jsval" where
  "objective_of m = js_or (obj_get (m_params m) ''objective'') (JStr ''regression'')"

text \<open>The number of \<^verbatim>\<open>update\<close> calls that have reached the engine.\<close>

fun is_update :: "call \<Rightarrow> bool" where
  "is_update (BoosterUpdate h) = True"
| "is_update c = False"

definition updates :: "wasm \<Rightarrow> nat" where
  "updates w = length (filter is_update (trace w))"

text \<open>\<open>n\<close> rounds of \<^verbatim>\<open>update\<close>, ended early by the first one that throws.\<close>

fun run_updates :: "nat \<Rightarrow> booster \<Rightarrow> wasm \<Rightarrow> (error + unit) \<times> wasm" where
  "run_updates 0 b w = (Inr (), w)"
| "run_updates (Suc n) b w =
     (case Booster_update b w of
        (Inl e, w1) \<Rightarrow> (Inl e, w1)
      | (Inr finished, w1) \<Rightarrow> run_updates n b w1)"

text \<open>
  How many values the counter of the training loop takes below a bound, when the
  counter reaches the bound at all.
\<close>

fun round_count :: "f64 \<Rightarrow> nat option" where
  "round_count (Fin r) = (if r \<le> 2 ^ 53 then Some (nat \<lceil>r\<rceil>) else None)"
| "round_count PInf = None"
| "round_count NInf = Some 0"
| "round_count NaN = Some 0"

subsection \<open>Calls on a model\<close>

text \<open>
  The methods of a model as values, and what a call leaves of the model and of the
  module; the value the call returns or throws is dropped here. \<open>None\<close> is a call of
  \<^verbatim>\<open>fit\<close> that never returns. \<^verbatim>\<open>getParams\<close> returns a copy of the hyperparameters.
  The property getters only read and are left out, and so is a write from outside to
  the object given to \<^verbatim>\<open>create\<close>, which the model keeps as its hyperparameters.
\<close>

datatype model_call =
    CallFit xinput "f64 list"
  | CallPredict xinput
  | CallPredictProba xinput
  | CallScore xinput "f64 list"
  | CallSave
  | CallGetParams
  | CallSetParams jsobject
  | CallDispose

fun invoke :: "js_runtime \<Rightarrow> model_call \<Rightarrow> lgbmodel \<Rightarrow> wasm \<Rightarrow> (lgbmodel \<times> wasm) option" where
  "invoke rt (CallFit X y) m w = map_option snd (fit rt m X y w)"
| "invoke rt (CallPredict X) m w = Some (m, snd (predict m X w))"
| "invoke rt (CallPredictProba X) m w = Some (m, snd (predictProba m X w))"
| "invoke rt (CallScore X y) m w = Some (m, snd (score m X y w))"
| "invoke rt CallSave m w = Some (m, snd (save m w))"
| "invoke rt CallGetParams m w = Some (m, w)"
| "invoke rt (CallSetParams p) m w = Some (setParams m p, w)"
| "invoke rt CallDispose m w = Some (dispose m w)"

text \<open>A sequence of calls on one model, each on what the one before left.\<close>

fun invoke_all ::
    "js_runtime \<Rightarrow> model_call list \<Rightarrow> lgbmodel \<Rightarrow> wasm \<Rightarrow> (lgbmodel \<times> wasm) option" where
  "invoke_all rt [] m w = Some (m, w)"
| "invoke_all rt (c # cs) m w =
     (case invoke rt c m w of
        None \<Rightarrow> None
      | Some (m1, w1) \<Rightarrow> invoke_all rt cs m1 w1)"

text \<open>
  The calls that neither dispose the model nor give \<open>task\<close> or \<open>objective\<close> a falsy
  value: every call but \<^verbatim>\<open>dispose\<close>, with \<^verbatim>\<open>setParams\<close> only on an argument whose
  entries for these two keys are truthy.
\<close>

fun keeps_conflict :: "model_call \<Rightarrow> bool" where
  "keeps_conflict CallDispose = False"
| "keeps_conflict (CallSetParams p) =
     list_all (\<lambda>(k, v). k = ''task'' \<or> k = ''objective'' \<longrightarrow> truthy v) p"
| "keeps_conflict c = True"

text \<open>The arguments of the \<^verbatim>\<open>setParams\<close> calls of a sequence, assigned in order.\<close>

fun assigned :: "model_call list \<Rightarrow> jsobject \<Rightarrow> jsobject" where
  "assigned [] ps = ps"
| "assigned (CallSetParams p # cs) ps = assigned cs (obj_assign ps p)"
| "assigned (c # cs) ps = assigned cs ps"

subsection \<open>Example values\<close>

definition rt0 :: js_runtime where
  "rt0 = \<lparr>StringToNumber = (\<lambda>s. NaN), NumberToString = (\<lambda>x. ''n'')\<rparr>"

definition ok_reply :: reply where
  "ok_reply = \<lparr>status = 0, out_i32 = 7, out_f64 = [], out_bytes = [], message = []\<rparr>"

text \<open>An engine that accepts every call.\<close>

definition ok_engine :: "call list \<Rightarrow> reply" where
  "ok_engine t = ok_reply"

definition wasm0 :: wasm where
  "wasm0 = \<lparr>engine = ok_engine, trace = [], live = [], brk = 0\<rparr>"

text \<open>A fitted regression model, as \<^verbatim>\<open>load\<close> builds it.\<close>

definition regressor0 :: lgbmodel where
  "regressor0 = LGBModel_loaded (Booster_loaded 7) [(''objective'', JStr ''regression'')] 0 None"

text \<open>A new binary classifier with \<open>numRound\<close> as given, and a training set of two rows.\<close>

definition binary0 :: "jsval \<Rightarrow> lgbmodel" where
  "binary0 numRound = LGBModel_new [(''objective'', JStr ''binary''), (''numRound'', numRound)]"

definition X0 :: xinput where
  "X0 = Rows [[Fin 1, Fin 2], [Fin 3, Fin 4]]"

definition y0 :: "f64 list" where
  "y0 = [Fin 3, Fin 7]"

definition binary_default :: lgbmodel where
  "binary_default = LGBModel_new [(''objective'', JStr ''binary'')]"

text \<open>A new model that names its task only, and a training set with three labels.\<close>

definition task_model :: lgbmodel where
  "task_model = LGBModel_new [(''task'', JStr ''classification'')]"

definition X1 :: xinput where
  "X1 = Rows [[Fin 1], [Fin 2], [Fin 3]]"

definition y1 :: "f64 list" where
  "y1 = [Fin 5, Fin 6, Fin 9]"

text \<open>A fitted binary classifier holding the booster with handle 4.\<close>

definition classifier0 :: lgbmodel where
  "classifier0 =
     LGBModel_loaded (Booster_loaded 4) [(''objective'', JStr ''binary'')] 2 (Some [Fin 3, Fin 7])"

text \<open>
  A fitted three-class model, and a module whose engine accepts every call and answers a
  prediction with the given values.
\<close>

definition classifier3 :: lgbmodel where
  "classifier3 =
     LGBModel_loaded (Booster_loaded 4) [(''objective'', JStr ''multiclass'')] 3
       (Some [Fin 5, Fin 6, Fin 9])"

definition wasm_predicting :: "f64 list \<Rightarrow> wasm" where
  "wasm_predicting ps = wasm0\<lparr>engine := (\<lambda>t. ok_reply\<lparr>out_f64 := ps\<rparr>)\<rparr>"

text \<open>An integer as a label value.\<close>

definition label :: "int \<Rightarrow> f64" where
  "label z = Fin (of_int z)"

text \<open>The four rows of the documented example.\<close>

definition X4 :: xinput where
  "X4 = Rows [[Fin 1, Fin 2], [Fin 3, Fin 4], [Fin 5, Fin 6], [Fin 7, Fin 8]]"

section \<open>Properties\<close>

subsection \<open>What each engine operation does\<close>

text \<open>
  Each operation of the two handle classes as one equation: the calls it adds to the
  trace, the result, and the scratch blocks it leaves allocated.
\<close>

lemmas wasm_ops = malloc_def free_def native_def withCString_def getLastError_def native_failure_def

lemma Dataset_new_eq:
  "Dataset_new d r c ps w =
     (let t = trace w @ [DatasetCreateFromMat d r c ps]; rep = engine w t
      in if status rep \<noteq> 0
         then (Inl (NativeCallFailure ''Dataset creation failed'' (message (engine w (t @ [GetLastError])))),
               w\<lparr>trace := t @ [GetLastError], brk := brk w + 3\<rparr>)
         else (Inr \<lparr>d_handle = Some (out_i32 rep), d_freed = False\<rparr>,
               w\<lparr>trace := t, brk := brk w + 3\<rparr>))"
  by (simp add: Dataset_new_def wasm_ops Let_def)

lemma Dataset_setLabel_eq:
  "Dataset_setLabel d arr w =
     (if d_freed d
      then (Inl (AlreadyDisposed ''Dataset''), w\<lparr>live := brk w # live w, brk := brk w + 2\<rparr>)
      else (let t = trace w @ [DatasetSetField (from_handle (d_handle d)) ''label'' arr (f32_length arr) 0];
                rep = engine w t
            in if status rep \<noteq> 0
               then (Inl (NativeCallFailure ''Dataset setLabel failed'' (message (engine w (t @ [GetLastError])))),
                     w\<lparr>trace := t @ [GetLastError], brk := brk w + 2\<rparr>)
               else (Inr (), w\<lparr>trace := t, brk := brk w + 2\<rparr>)))"
  by (simp add: Dataset_setLabel_def Dataset_handle_def wasm_ops Let_def)

lemma Dataset_dispose_eq:
  "Dataset_dispose d w =
     (if d_freed d then (d, w)
      else (d\<lparr>d_handle := None, d_freed := True\<rparr>,
            w\<lparr>trace := trace w @ [DatasetFree (from_handle (d_handle d))]\<rparr>))"
  by (simp add: Dataset_dispose_def wasm_ops Let_def)

lemma Booster_new_eq:
  "Booster_new h ps w =
     (let t = trace w @ [BoosterCreate (from_handle h) ps]; rep = engine w t
      in if status rep \<noteq> 0
         then (Inl (NativeCallFailure ''Booster creation failed'' (message (engine w (t @ [GetLastError])))),
               w\<lparr>trace := t @ [GetLastError], brk := brk w + 2\<rparr>)
         else (Inr \<lparr>b_handle = Some (out_i32 rep), b_freed = False\<rparr>,
               w\<lparr>trace := t, brk := brk w + 2\<rparr>))"
  by (simp add: Booster_new_def wasm_ops Let_def)

lemma Booster_update_eq:
  "Booster_update b w =
     (if b_freed b
      then (Inl (AlreadyDisposed ''Booster''), w\<lparr>live := brk w # live w, brk := Suc (brk w)\<rparr>)
      else (let t = trace w @ [BoosterUpdate (from_handle (b_handle b))]; rep = engine w t
            in if status rep \<noteq> 0
               then (Inl (NativeCallFailure ''Booster update failed'' (message (engine w (t @ [GetLastError])))),
                     w\<lparr>trace := t @ [GetLastError], brk := Suc (brk w)\<rparr>)
               else (Inr (out_i32 rep \<noteq> 0), w\<lparr>trace := t, brk := Suc (brk w)\<rparr>)))"
  by (simp add: Booster_update_def Booster_handle_def wasm_ops Let_def)

lemma Booster_dispose_eq:
  "Booster_dispose b w =
     (if b_freed b then (b, w)
      else (b\<lparr>b_handle := None, b_freed := True\<rparr>,
            w\<lparr>trace := trace w @ [BoosterFree (from_handle (b_handle b))]\<rparr>))"
  by (simp add: Booster_dispose_def wasm_ops Let_def)

lemma Booster_predict_eq:
  "Booster_predict b d r c w =
     (if b_freed b
      then (Inl (AlreadyDisposed ''Booster''),
            w\<lparr>live := (brk w + 2) # (brk w + 1) # brk w # live w, brk := brk w + 4\<rparr>)
      else (let t = trace w @ [BoosterPredict (from_handle (b_handle b)) d r c 0 0 ''''];
                rep = engine w t
            in if status rep \<noteq> 0
               then (Inl (NativeCallFailure ''Booster predict failed'' (message (engine w (t @ [GetLastError])))),
                     w\<lparr>trace := t @ [GetLastError], brk := brk w + 4\<rparr>)
               else (Inr (out_f64 rep), w\<lparr>trace := t, brk := brk w + 4\<rparr>)))"
  by (simp add: Booster_predict_def Booster_handle_def wasm_ops Let_def)

subsection \<open>Lifecycle errors\<close>

lemma normalizeX_error: "normalizeX X = Inl e \<Longrightarrow> e = InvalidX"
  by (cases X rule: normalizeX.cases) (auto simp: Let_def)

text \<open>
  Claim C7. On a disposed model, \<^verbatim>\<open>predict\<close>, \<^verbatim>\<open>predictProba\<close>, \<^verbatim>\<open>score\<close> and
  \<^verbatim>\<open>save\<close> each throw \<open>DisposedError\<close>; on a model that is not disposed and not fitted
  each throws \<open>NotFittedError\<close>. The disposed flag is tested first, and the engine is not
  touched.
\<close>

theorem lifecycle_errors:
  "(m_freed m \<longrightarrow>
      predict m X w = (Inl DisposedError, w) \<and> predictProba m X w = (Inl DisposedError, w) \<and>
      score m X y w = (Inl DisposedError, w) \<and> save m w = (Inl DisposedError, w)) \<and>
   (\<not> m_freed m \<and> \<not> m_fitted m \<longrightarrow>
      predict m X w = (Inl NotFittedError, w) \<and> predictProba m X w = (Inl NotFittedError, w) \<and>
      score m X y w = (Inl NotFittedError, w) \<and> save m w = (Inl NotFittedError, w))"
  by (simp add: predict_def predictProba_def score_def save_def ensureFitted_def)

theorem lifecycle_errors_witness:
  "m_freed (fst (dispose regressor0 wasm0)) \<and>
   predict (fst (dispose regressor0 wasm0)) (Rows [[Fin 1]]) wasm0 = (Inl DisposedError, wasm0) \<and>
   predictProba (fst (dispose regressor0 wasm0)) (Rows [[Fin 1]]) wasm0 = (Inl DisposedError, wasm0) \<and>
   score (fst (dispose regressor0 wasm0)) (Rows [[Fin 1]]) [Fin 1] wasm0 = (Inl DisposedError, wasm0) \<and>
   save (fst (dispose regressor0 wasm0)) wasm0 = (Inl DisposedError, wasm0) \<and>
   \<not> m_freed (LGBModel_new []) \<and> \<not> m_fitted (LGBModel_new []) \<and>
   predict (LGBModel_new []) (Rows [[Fin 1]]) wasm0 = (Inl NotFittedError, wasm0) \<and>
   predictProba (LGBModel_new []) (Rows [[Fin 1]]) wasm0 = (Inl NotFittedError, wasm0) \<and>
   score (LGBModel_new []) (Rows [[Fin 1]]) [Fin 1] wasm0 = (Inl NotFittedError, wasm0) \<and>
   save (LGBModel_new []) wasm0 = (Inl NotFittedError, wasm0)"
proof -
  have d: "m_freed (fst (dispose regressor0 wasm0))"
    by (simp add: dispose_def regressor0_def LGBModel_loaded_def Let_def)
  have n: "\<not> m_freed (LGBModel_new []) \<and> \<not> m_fitted (LGBModel_new [])"
    by (simp add: LGBModel_new_def)
  show ?thesis
    using d n
      lifecycle_errors [of "fst (dispose regressor0 wasm0)" "Rows [[Fin 1]]" wasm0 "[Fin 1]"]
      lifecycle_errors [of "LGBModel_new []" "Rows [[Fin 1]]" wasm0 "[Fin 1]"]
    by blast
qed

subsection \<open>The objective test of predictProba\<close>

text \<open>
  Claim C8. On a fitted model that is not disposed, \<^verbatim>\<open>predictProba\<close> throws its
  objective error exactly when the objective is none of \<open>binary\<close>, \<open>multiclass\<close>,
  \<open>multiclassova\<close>; under the regression objective it always does, whatever the matrix
  and the engine.
\<close>

theorem predictProba_objective_mismatch:
  assumes "m_fitted m" and "\<not> m_freed m"
  shows "((\<exists>v. fst (predictProba m X w) = Inl (ObjectiveMismatch v))
            \<longleftrightarrow> objective_of m \<notin> set PROBA_OBJECTIVES) \<and>
         (objective_of m = JStr ''regression''
            \<longrightarrow> predictProba m X w = (Inl (ObjectiveMismatch (JStr ''regression'')), w))"
proof (intro conjI iffI impI)
  assume "\<exists>v. fst (predictProba m X w) = Inl (ObjectiveMismatch v)"
  then obtain v where v: "fst (predictProba m X w) = Inl (ObjectiveMismatch v)" ..
  show "objective_of m \<notin> set PROBA_OBJECTIVES"
  proof (rule ccontr)
    assume "\<not> ?thesis"
    with v assms show False
      by (auto simp: predictProba_def ensureFitted_def objective_of_def Booster_predict_eq Let_def
            split: sum.splits prod.splits option.splits if_splits
            dest: normalizeX_error)
  qed
next
  assume "objective_of m \<notin> set PROBA_OBJECTIVES"
  with assms show "\<exists>v. fst (predictProba m X w) = Inl (ObjectiveMismatch v)"
    by (simp add: predictProba_def ensureFitted_def objective_of_def Let_def)
next
  assume "objective_of m = JStr ''regression''"
  with assms show "predictProba m X w = (Inl (ObjectiveMismatch (JStr ''regression'')), w)"
    by (simp add: predictProba_def ensureFitted_def objective_of_def PROBA_OBJECTIVES_def Let_def)
qed

theorem predictProba_objective_mismatch_witness:
  "m_fitted regressor0 \<and> \<not> m_freed regressor0 \<and>
   objective_of regressor0 = JStr ''regression'' \<and>
   objective_of regressor0 \<notin> set PROBA_OBJECTIVES \<and>
   predictProba regressor0 (Rows [[Fin 1]]) wasm0 = (Inl (ObjectiveMismatch (JStr ''regression'')), wasm0)"
proof -
  have f: "m_fitted regressor0" and d: "\<not> m_freed regressor0"
    by (simp_all add: regressor0_def LGBModel_loaded_def)
  have o: "objective_of regressor0 = JStr ''regression''"
    by (simp add: regressor0_def LGBModel_loaded_def objective_of_def obj_get_def js_or_def)
  show ?thesis
    using f d o predictProba_objective_mismatch [OF f d, of "Rows [[Fin 1]]" wasm0]
    by (simp add: PROBA_OBJECTIVES_def)
qed

subsection \<open>The training loop\<close>


lemma guard_round_count:
  "round_count bound = Some N \<Longrightarrow> js_lt (Fin (real i)) bound \<longleftrightarrow> i < N"
proof (cases bound)
  case (Fin r)
  assume "round_count bound = Some N"
  with Fin have N: "N = nat \<lceil>r\<rceil>" by (simp split: if_splits)
  have "real i < r \<longleftrightarrow> i < nat \<lceil>r\<rceil>"
    by (metis less_ceiling_iff of_int_of_nat_eq zless_nat_eq_int_zless nat_int)
  with Fin N show ?thesis by simp
qed simp_all

lemma round_count_bound: "round_count bound = Some N \<Longrightarrow> N \<le> 2 ^ 53"
proof (cases bound)
  case (Fin r)
  assume "round_count bound = Some N"
  with Fin have N: "N = nat \<lceil>r\<rceil>" and r: "r \<le> 2 ^ 53" by (simp_all split: if_splits)
  from r have "\<lceil>r\<rceil> \<le> 2 ^ 53" by (simp add: ceiling_le_iff)
  with N show ?thesis by (simp add: nat_le_iff)
qed simp_all

text \<open>When the counter reaches the bound, the loop is \<open>run_updates\<close> for the rounds left.\<close>

lemma train_loop_total:
  assumes "round_count bound = Some N"
  shows "train_loop bound b i w = Some (run_updates (N - i) b w)"
proof (induction "N - i" arbitrary: i w)
  case 0
  then have "\<not> i < N" by simp
  then show ?case using 0 guard_round_count [OF assms, of i]
    by (subst train_loop.simps) simp
next
  case (Suc k)
  then have lt: "i < N" by simp
  with round_count_bound [OF assms] have inc: "js_incr i = Suc i" by (simp add: js_incr_def)
  from Suc have k: "k = N - Suc i" and d: "N - i = Suc (N - Suc i)" by simp_all
  show ?case
    using lt guard_round_count [OF assms, of i] Suc.hyps(1) [OF k]
    by (subst train_loop.simps) (simp add: inc d split: prod.splits sum.splits)
qed

text \<open>Whenever the loop returns, it has done what some number of rounds does.\<close>

lemma train_loop_partial:
  assumes "train_loop bound b i w = Some res"
  shows "\<exists>n. res = run_updates n b w"
proof (rule train_loop.raw_induct [where P = "\<lambda>bound b i w res. \<exists>n. res = run_updates n b w", OF _ assms])
  fix loop :: "f64 \<Rightarrow> booster \<Rightarrow> nat \<Rightarrow> wasm \<Rightarrow> ((error + unit) \<times> wasm) option"
  fix bound b i w res
  assume IH: "\<And>bound b i w res. loop bound b i w = Some res \<Longrightarrow> \<exists>n. res = run_updates n b w"
  assume body: "(if js_lt (Fin (real i)) bound
      then case Booster_update b w of (Inl e, w1) \<Rightarrow> Some (Inl e, w1)
           | (Inr finished, w1) \<Rightarrow> loop bound b (js_incr i) w1
      else Some (Inr (), w)) = Some res"
  show "\<exists>n. res = run_updates n b w"
  proof (cases "js_lt (Fin (real i)) bound")
    case False
    with body have "res = run_updates 0 b w" by simp
    then show ?thesis ..
  next
    case True
    show ?thesis
    proof (cases "Booster_update b w")
      case (Pair r w1)
      show ?thesis
      proof (cases r)
        case (Inl e)
        with True Pair body have "res = run_updates (Suc 0) b w" by simp
        then show ?thesis ..
      next
        case (Inr f)
        with True Pair body have "loop bound b (js_incr i) w1 = Some res" by simp
        from IH [OF this] obtain n where "res = run_updates n b w1" ..
        with Pair Inr have "res = run_updates (Suc n) b w" by simp
        then show ?thesis ..
      qed
    qed
  qed
qed

lemma run_updates_success:
  "run_updates n b w = (Inr u, w') \<Longrightarrow>
     w' = w\<lparr>trace := trace w @ replicate n (BoosterUpdate (from_handle (b_handle b))),
            brk := brk w + n\<rparr>"
proof (induction n arbitrary: w)
  case 0
  then show ?case by simp
next
  case (Suc n)
  define w1 where "w1 = w\<lparr>trace := trace w @ [BoosterUpdate (from_handle (b_handle b))],
                          brk := Suc (brk w)\<rparr>"
  from Suc.prems have "run_updates n b w1 = (Inr u, w')"
    by (simp add: Booster_update_eq Let_def w1_def split: if_splits)
  from Suc.IH [OF this] show ?case
    by (simp add: w1_def replicate_app_Cons_same)
qed

lemma run_updates_trace:
  "run_updates n b w = (r, w') \<Longrightarrow> \<exists>ext. trace w' = trace w @ ext \<and> engine w' = engine w"
proof (induction n arbitrary: w)
  case 0
  then show ?case by simp
next
  case (Suc n)
  then show ?case
    by (fastforce simp: Booster_update_eq Let_def split: if_splits)
qed

lemma train_loop_success:
  assumes "train_loop bound b i w = Some (Inr u, w')"
  shows "\<exists>n. w' = w\<lparr>trace := trace w @ replicate n (BoosterUpdate (from_handle (b_handle b))),
                      brk := brk w + n\<rparr> \<and>
             (\<forall>N. round_count bound = Some N \<longrightarrow> n = N - i)"
proof -
  from train_loop_partial [OF assms] obtain n where n: "run_updates n b w = (Inr u, w')"
    by metis
  note w' = run_updates_success [OF n]
  have "n = N - i" if N: "round_count bound = Some N" for N
  proof -
    from train_loop_total [OF N, of b i w] assms
    have "run_updates (N - i) b w = (Inr u, w')" by simp
    from run_updates_success [OF this] w'
    have "trace (w\<lparr>trace := trace w @ replicate (N - i) (BoosterUpdate (from_handle (b_handle b))),
            brk := brk w + (N - i)\<rparr>) =
          trace (w\<lparr>trace := trace w @ replicate n (BoosterUpdate (from_handle (b_handle b))),
            brk := brk w + n\<rparr>)" by simp
    then have "length (replicate (N - i) (BoosterUpdate (from_handle (b_handle b)))) =
               length (replicate n (BoosterUpdate (from_handle (b_handle b))))"
      by simp
    then show ?thesis by simp
  qed
  with w' show ?thesis by blast
qed

lemma train_loop_trace:
  assumes "train_loop bound b i w = Some (r, w')"
  shows "\<exists>ext. trace w' = trace w @ ext \<and> engine w' = engine w"
proof -
  from train_loop_partial [OF assms] obtain n where "run_updates n b w = (r, w')" by metis
  then show ?thesis by (rule run_updates_trace)
qed

text \<open>A call of \<open>train\<close> that returns a booster, in full.\<close>

lemma train_success:
  assumes "train xData rows cols ps yTrain bound w = Some (Inr b, w')"
  defines "t1 \<equiv> trace w @ [DatasetCreateFromMat xData rows cols ps]"
  defines "dh \<equiv> out_i32 (engine w t1)"
  defines "t3 \<equiv> t1 @ [DatasetSetField dh ''label'' yTrain (f32_length yTrain) 0, BoosterCreate dh ps]"
  defines "bh \<equiv> out_i32 (engine w t3)"
  shows "\<exists>n. b = \<lparr>b_handle = Some bh, b_freed = False\<rparr> \<and>
             w' = w\<lparr>trace := t3 @ replicate n (BoosterUpdate bh) @ [DatasetFree dh],
                    brk := brk w + 7 + n\<rparr> \<and>
             (\<forall>N. round_count bound = Some N \<longrightarrow> n = N)"
proof -
  define w3 where "w3 = w\<lparr>trace := t3, brk := brk w + 7\<rparr>"
  define b0 where "b0 = \<lparr>b_handle = Some bh, b_freed = False\<rparr>"
  from assms(1) have "\<exists>u w4. train_loop bound b0 0 w3 = Some (Inr u, w4) \<and> b = b0 \<and>
      w' = w4\<lparr>trace := trace w4 @ [DatasetFree dh]\<rparr>"
    unfolding train_def Dataset_new_eq Dataset_setLabel_eq Dataset_handle_def Booster_new_eq
      Dataset_dispose_eq Let_def w3_def b0_def t1_def dh_def t3_def bh_def
    by (auto simp: from_handle_def add.commute split: if_splits option.splits sum.splits prod.splits)
  then obtain u w4 where loop: "train_loop bound b0 0 w3 = Some (Inr u, w4)" and b: "b = b0"
    and w': "w' = w4\<lparr>trace := trace w4 @ [DatasetFree dh]\<rparr>"
    by blast
  from train_loop_success [OF loop] obtain n
    where w4: "w4 = w3\<lparr>trace := trace w3 @ replicate n (BoosterUpdate (from_handle (b_handle b0))),
                      brk := brk w3 + n\<rparr>"
      and n: "\<forall>N. round_count bound = Some N \<longrightarrow> n = N - 0" by blast
  have "w' = w\<lparr>trace := t3 @ replicate n (BoosterUpdate bh) @ [DatasetFree dh], brk := brk w + 7 + n\<rparr>"
    by (simp add: w' w4 w3_def b0_def from_handle_def)
  with b n show ?thesis by (auto simp: b0_def)
qed

lemma train_trace:
  assumes "train xData rows cols ps yTrain bound w = Some (r, w')"
  shows "\<exists>ext. trace w' = trace w @ ext \<and> engine w' = engine w"
  using assms
  by (auto simp: train_def Dataset_new_eq Dataset_setLabel_eq Dataset_handle_def Booster_new_eq
        Dataset_dispose_eq Let_def
        split: if_splits option.splits sum.splits prod.splits
        dest!: train_loop_trace)

lemma train_terminates:
  assumes "round_count bound = Some N"
  shows "\<exists>res. train xData rows cols ps yTrain bound w = Some res"
  by (auto simp: train_def train_loop_total [OF assms] Let_def
        split: if_splits option.splits sum.splits prod.splits)

subsection \<open>The steps of fit\<close>

lemma obj_get_obj_set: "obj_get (obj_set ps k v) k' = (if k' = k then v else obj_get ps k')"
  by (induction ps) (auto simp: obj_get_def)

lemma dispose_previous_eq:
  "dispose_previous m w =
     (m\<lparr>m_booster := None\<rparr>,
      case m_booster m of
        None \<Rightarrow> w
      | Some b \<Rightarrow> if b_freed b then w
                  else w\<lparr>trace := trace w @ [BoosterFree (from_handle (b_handle b))]\<rparr>)"
  by (cases "m_booster m") (simp_all add: dispose_previous_def Booster_dispose_eq)

lemma resolveTask_fields:
  assumes "resolveTask m y = Inr m1"
  shows "m_booster m1 = m_booster m" "m_freed m1 = m_freed m" "m_fitted m1 = m_fitted m"
    "m_nrClass m1 = m_nrClass m" "m_classes m1 = m_classes m"
    "obj_get (m_params m1) ''numRound'' = obj_get (m_params m) ''numRound''"
    "obj_get (m_params m1) ''task'' = obj_get (m_params m) ''task''"
  using assms
  by (auto simp: resolveTask_def Let_def obj_get_obj_set split: if_splits)

lemma prepare_labels_fields:
  assumes "prepare_labels obj y m = Inr (m3, yTrain)"
  shows "m_booster m3 = m_booster m" "m_freed m3 = m_freed m" "m_fitted m3 = m_fitted m"
    "m_params m3 = m_params m"
  using assms
  by (auto simp: prepare_labels_def Let_def split: if_splits sum.splits)

text \<open>A call of \<^verbatim>\<open>fit\<close> that returns normally went through every step.\<close>

lemma fit_success:
  assumes "fit rt m X y w = Some (Inr u, m', w')"
  obtains m1 w1 xData rows cols m3 yTrain b where
    "\<not> m_freed m"
    "resolveTask m y = Inr m1"
    "dispose_previous m1 w = (m1\<lparr>m_booster := None\<rparr>, w1)"
    "normalizeX X = Inr (xData, rows, cols)"
    "prepare_labels (objective_of m1) y (m1\<lparr>m_booster := None\<rparr>) = Inr (m3, yTrain)"
    "f32_length yTrain = rows"
    "train xData rows cols
       (paramStr_of rt (build_lgbParams (m_params m3) (objective_of m1) (m_nrClass m3)))
       yTrain (ToNumber rt (js_or (obj_get (m_params m3) ''numRound'') (JNum (Fin 100)))) w1
     = Some (Inr b, w')"
    "m' = m3\<lparr>m_booster := Some b, m_fitted := True\<rparr>"
proof -
  from assms have nd: "\<not> m_freed m"
    by (auto simp: fit_def ensureNotDisposed_def split: if_splits)
  from assms nd obtain m1 where m1: "resolveTask m y = Inr m1"
    by (cases "resolveTask m y") (auto simp: fit_def ensureNotDisposed_def)
  obtain w1 where w1: "dispose_previous m1 w = (m1\<lparr>m_booster := None\<rparr>, w1)"
    by (simp add: dispose_previous_eq)
  from assms nd m1 w1 obtain xData rows cols where X: "normalizeX X = Inr (xData, rows, cols)"
    by (cases "normalizeX X") (auto simp: fit_def ensureNotDisposed_def)
  have obj: "js_or (obj_get (m_params m1) ''objective'') (JStr ''regression'') = objective_of m1"
    by (simp add: objective_of_def)
  from assms nd m1 w1 X obtain m3 yTrain
    where L: "prepare_labels (objective_of m1) y (m1\<lparr>m_booster := None\<rparr>) = Inr (m3, yTrain)"
    by (cases "prepare_labels (objective_of m1) y (m1\<lparr>m_booster := None\<rparr>)")
       (auto simp: fit_def ensureNotDisposed_def obj Let_def)
  from assms nd m1 w1 X L have len: "f32_length yTrain = rows"
    by (auto simp: fit_def ensureNotDisposed_def obj Let_def split: if_splits)
  from assms nd m1 w1 X L len obtain b where
    "train xData rows cols
       (paramStr_of rt (build_lgbParams (m_params m3) (objective_of m1) (m_nrClass m3)))
       yTrain (ToNumber rt (js_or (obj_get (m_params m3) ''numRound'') (JNum (Fin 100)))) w1
     = Some (Inr b, w')"
    "m' = m3\<lparr>m_booster := Some b, m_fitted := True\<rparr>"
    by (auto simp: fit_def ensureNotDisposed_def obj Let_def
          split: if_splits option.splits sum.splits prod.splits)
  with nd m1 w1 X L len show thesis by (rule that)
qed

lemma updates_append: "updates (w\<lparr>trace := trace w @ ext\<rparr>) = updates w + length (filter is_update ext)"
  by (simp add: updates_def)

lemma fit_numRound:
  assumes "resolveTask m y = Inr m1"
    and "prepare_labels obj y (m1\<lparr>m_booster := None\<rparr>) = Inr (m3, yTrain)"
  shows "obj_get (m_params m3) ''numRound'' = obj_get (m_params m) ''numRound''"
  using prepare_labels_fields(4) [OF assms(2)] resolveTask_fields(6) [OF assms(1)] by simp

lemma fit_update_count:
  assumes fit: "fit rt m X y w = Some (Inr u, m', w')"
    and N: "round_count (ToNumber rt (js_or (obj_get (m_params m) ''numRound'') (JNum (Fin 100)))) = Some N"
  shows "updates w' = updates w + N"
proof -
  from fit obtain m1 w1 xData rows cols m3 yTrain b ps where
    m1: "resolveTask m y = Inr m1"
    and w1: "dispose_previous m1 w = (m1\<lparr>m_booster := None\<rparr>, w1)"
    and L: "prepare_labels (objective_of m1) y (m1\<lparr>m_booster := None\<rparr>) = Inr (m3, yTrain)"
    and T: "train xData rows cols ps
       yTrain (ToNumber rt (js_or (obj_get (m_params m3) ''numRound'') (JNum (Fin 100)))) w1
     = Some (Inr b, w')"
    by (rule fit_success) blast
  from N fit_numRound [OF m1 L]
  have N3: "round_count (ToNumber rt (js_or (obj_get (m_params m3) ''numRound'') (JNum (Fin 100)))) = Some N"
    by simp
  from w1 have u1: "updates w1 = updates w"
    by (auto simp: dispose_previous_eq updates_def split: option.splits if_splits)
  from train_success [OF T] N3 have "updates w' = updates w1 + N"
    by (auto simp: updates_def)
  with u1 show ?thesis by simp
qed

text \<open>However a call ends, it has made no more calls of \<^verbatim>\<open>update\<close> than the bound.\<close>

lemma run_updates_count:
  "run_updates n b w = (r, w') \<Longrightarrow> updates w' \<le> updates w + n"
proof (induction n arbitrary: w)
  case 0
  then show ?case by simp
next
  case (Suc n)
  show ?case
  proof (cases "Booster_update b w")
    case (Pair r1 w1)
    have u: "updates w1 \<le> updates w + 1"
      using Pair by (auto simp: Booster_update_eq updates_def Let_def split: if_splits)
    show ?thesis
    proof (cases r1)
      case (Inl e)
      with Pair Suc.prems u show ?thesis by simp
    next
      case (Inr f)
      with Pair Suc.prems have "run_updates n b w1 = (r, w')" by simp
      from Suc.IH [OF this] u show ?thesis by simp
    qed
  qed
qed

lemma train_count:
  assumes "round_count bound = Some N"
    and "train xData rows cols ps yTrain bound w = Some (r, w')"
  shows "updates w' \<le> updates w + N"
proof -
  have "updates w4 \<le> updates w3 + N" if "run_updates N b w3 = (r', w4)" for b w3 r' w4
    using run_updates_count [OF that] .
  note c = this
  show ?thesis
    using assms(2)
    by (auto simp: train_def Dataset_new_eq Dataset_setLabel_eq Dataset_handle_def Booster_new_eq
          Dataset_dispose_eq train_loop_total [OF assms(1)] updates_def Let_def
          split: if_splits sum.splits prod.splits
          dest!: c [unfolded updates_def])
qed

lemma fit_count:
  assumes N: "round_count (ToNumber rt (js_or (obj_get (m_params m) ''numRound'') (JNum (Fin 100)))) = Some N"
    and fit: "fit rt m X y w = Some (r, m', w')"
  shows "updates w' \<le> updates w + N"
proof (cases "resolveTask m y")
  case (Inl e)
  with fit show ?thesis by (auto simp: fit_def split: sum.splits)
next
  case (Inr m1)
  define w1 where "w1 = snd (dispose_previous m1 w)"
  have w1: "dispose_previous m1 w = (m1\<lparr>m_booster := None\<rparr>, w1)"
    by (simp add: w1_def dispose_previous_eq)
  have u1: "updates w1 = updates w"
    by (auto simp: w1_def dispose_previous_eq updates_def split: option.splits)
  show ?thesis
  proof (cases "prepare_labels (objective_of m1) y (m1\<lparr>m_booster := None\<rparr>)")
    case (Inl e)
    with Inr fit w1 u1 show ?thesis
      by (auto simp: fit_def objective_of_def Let_def split: sum.splits prod.splits)
  next
    case L: (Inr p)
    obtain m3 yTrain where p: "p = (m3, yTrain)" by (cases p)
    from N fit_numRound [OF Inr L [unfolded p]]
    have N3: "round_count (ToNumber rt (js_or (obj_get (m_params m3) ''numRound'') (JNum (Fin 100)))) = Some N"
      by simp
    have "updates w2 \<le> updates w1 + N"
      if "train xData rows cols ps yTrain
           (ToNumber rt (js_or (obj_get (m_params m3) ''numRound'') (JNum (Fin 100)))) w1 = Some (r', w2)"
      for xData rows cols ps r' w2
      using train_count [OF N3 that] .
    with Inr L p fit w1 u1 show ?thesis
      by (auto simp: fit_def objective_of_def Let_def
            split: sum.splits prod.splits option.splits if_splits)
  qed
qed

lemma fit_terminates:
  assumes N: "round_count (ToNumber rt (js_or (obj_get (m_params m) ''numRound'') (JNum (Fin 100)))) = Some N"
  shows "\<exists>res. fit rt m X y w = Some res"
proof (cases "resolveTask m y")
  case (Inl e)
  then show ?thesis by (simp add: fit_def split: sum.splits)
next
  case (Inr m1)
  show ?thesis
  proof (cases "prepare_labels (objective_of m1) y (m1\<lparr>m_booster := None\<rparr>)")
    case (Inl e)
    with Inr show ?thesis
      by (simp add: fit_def dispose_previous_eq objective_of_def Let_def split: sum.splits prod.splits)
  next
    case L: (Inr p)
    obtain m3 yTrain where p: "p = (m3, yTrain)" by (cases p)
    from N fit_numRound [OF Inr L [unfolded p]]
    have N3: "round_count (ToNumber rt (js_or (obj_get (m_params m3) ''numRound'') (JNum (Fin 100)))) = Some N"
      by simp
    show ?thesis
    proof (cases "normalizeX X")
      case (Inl e)
      with Inr show ?thesis
        by (simp add: fit_def dispose_previous_eq Let_def split: sum.splits prod.splits)
    next
      case X: (Inr q)
      obtain xData rows cols where q: "q = (xData, rows, cols)" by (cases q)
      define w1 where "w1 = snd (dispose_previous m1 w)"
      define ps where "ps = paramStr_of rt (build_lgbParams (m_params m3) (objective_of m1) (m_nrClass m3))"
      from train_terminates [OF N3] obtain res where
        "train xData rows cols ps yTrain
           (ToNumber rt (js_or (obj_get (m_params m3) ''numRound'') (JNum (Fin 100)))) w1 = Some res"
        by blast
      with Inr L p X q show ?thesis
        by (cases res; cases "fst res")
           (simp_all add: fit_def dispose_previous_eq objective_of_def Let_def w1_def ps_def
              split: sum.splits)
    qed
  qed
qed

text \<open>With an engine that accepts every call, training returns a booster.\<close>

lemma run_updates_ok:
  "engine w = ok_engine \<Longrightarrow> \<not> b_freed b \<Longrightarrow> \<exists>w'. run_updates n b w = (Inr (), w') \<and> engine w' = ok_engine"
  by (induction n arbitrary: w) (auto simp: Booster_update_eq ok_engine_def ok_reply_def Let_def)

lemma train_ok:
  assumes "engine w = ok_engine" and "round_count bound = Some N"
  shows "\<exists>w'. train xData rows cols ps yTrain bound w = Some (Inr (Booster_loaded 7), w')"
proof -
  define w3 where "w3 = w\<lparr>trace := trace w @ [DatasetCreateFromMat xData rows cols ps,
      DatasetSetField 7 ''label'' yTrain (f32_length yTrain) 0, BoosterCreate 7 ps], brk := brk w + 7\<rparr>"
  have "engine w3 = ok_engine" using assms(1) by (simp add: w3_def)
  from run_updates_ok [OF this, of "\<lparr>b_handle = Some 7, b_freed = False\<rparr>" N]
  obtain w4 where "run_updates N \<lparr>b_handle = Some 7, b_freed = False\<rparr> w3 = (Inr (), w4)"
    by auto
  then show ?thesis
    using assms(1)
    by (simp add: train_def Dataset_new_eq Dataset_setLabel_eq Dataset_handle_def Booster_new_eq
          Dataset_dispose_eq train_loop_total [OF assms(2)] ok_engine_def ok_reply_def Let_def
          from_handle_def w3_def add.commute Booster_loaded_def)
qed

lemma dispose_previous_engine: "engine (snd (dispose_previous m w)) = engine w"
  by (simp add: dispose_previous_eq split: option.splits)

lemma fit_ok:
  assumes "\<not> m_freed m" and "resolveTask m y = Inr m1"
    and "normalizeX X = Inr (xData, rows, cols)"
    and "prepare_labels (objective_of m1) y (m1\<lparr>m_booster := None\<rparr>) = Inr (m3, yTrain)"
    and "f32_length yTrain = rows"
    and "engine w = ok_engine"
    and "round_count (ToNumber rt (js_or (obj_get (m_params m) ''numRound'') (JNum (Fin 100)))) = Some N"
  shows "\<exists>w'. fit rt m X y w =
           Some (Inr (), m3\<lparr>m_booster := Some (Booster_loaded 7), m_fitted := True\<rparr>, w')"
proof -
  from assms(7) fit_numRound [OF assms(2,4)]
  have N3: "round_count (ToNumber rt (js_or (obj_get (m_params m3) ''numRound'') (JNum (Fin 100)))) = Some N"
    by simp
  define w1 where "w1 = snd (dispose_previous m1 w)"
  have w1: "dispose_previous m1 w = (m1\<lparr>m_booster := None\<rparr>, w1)"
    by (simp add: w1_def dispose_previous_eq)
  have "engine w1 = ok_engine"
    using assms(6) by (simp add: w1_def dispose_previous_engine)
  from train_ok [OF this N3] obtain w' where
    "train xData rows cols
       (paramStr_of rt (build_lgbParams (m_params m3) (objective_of m1) (m_nrClass m3)))
       yTrain (ToNumber rt (js_or (obj_get (m_params m3) ''numRound'') (JNum (Fin 100)))) w1
     = Some (Inr (Booster_loaded 7), w')" by blast
  with assms w1 show ?thesis
    by (auto simp: fit_def ensureNotDisposed_def objective_of_def Let_def)
qed

lemma obj_get_absent: "\<not> obj_has ps k \<Longrightarrow> obj_get ps k = JUndefined"
  by (simp add: obj_has_def obj_get_def map_of_eq_None_iff [THEN iffD2])

text \<open>A classifier trained on integer labels by an engine that accepts every call.\<close>

lemma remap_length: "f32_length (remap srt y) = length y"
  by (simp add: remap_def)

lemma classifier_fit_ok:
  assumes "\<not> m_freed m"
    and "resolveTask m y = Inr m1"
    and "objective_of m1 \<in> set CLASSIFIER_OBJECTIVES"
    and "normalizeX X = Inr (xData, length y, cols)"
    and "collect_labels y 0 [] = Inr uq"
    and "engine w = ok_engine"
    and "round_count (ToNumber rt (js_or (obj_get (m_params m) ''numRound'') (JNum (Fin 100)))) = Some N"
  shows "\<exists>w'. fit rt m X y w =
           Some (Inr (), m1\<lparr>m_nrClass := length (array_sort js_sub uq),
                              m_classes := Some (map ToInt32 (array_sort js_sub uq)),
                              m_booster := Some (Booster_loaded 7), m_fitted := True\<rparr>, w')"
proof -
  have l: "prepare_labels (objective_of m1) y (m1\<lparr>m_booster := None\<rparr>) =
      Inr (m1\<lparr>m_booster := None, m_nrClass := length (array_sort js_sub uq),
              m_classes := Some (map ToInt32 (array_sort js_sub uq))\<rparr>,
           remap (array_sort js_sub uq) y)"
    using assms(3,5) by (simp add: prepare_labels_def Let_def)
  from fit_ok [OF assms(1) assms(2) assms(4) l remap_length assms(6) assms(7)]
  show ?thesis by simp
qed

lemma example_fit:
  assumes "\<not> m_freed m"
    and "obj_get (m_params m) ''task'' = JUndefined"
    and "obj_get (m_params m) ''objective'' = JStr ''binary''"
    and "round_count (ToNumber rt0 (js_or (obj_get (m_params m) ''numRound'') (JNum (Fin 100)))) = Some N"
  shows "\<exists>m' w'. fit rt0 m X0 y0 wasm0 = Some (Inr (), m', w')"
proof -
  have r: "resolveTask m y0 = Inr m"
    using assms(2) by (simp add: resolveTask_def)
  have o: "objective_of m \<in> set CLASSIFIER_OBJECTIVES"
    using assms(3) by (simp add: objective_of_def js_or_def CLASSIFIER_OBJECTIVES_def)
  have x: "normalizeX X0 = Inr (Float32Array [Fin 1, Fin 2, Fin 3, Fin 4], length y0, 2)"
    by (simp add: X0_def y0_def Let_def arr_get_def num_of_def)
  have c: "collect_labels y0 0 [] = Inr [Fin 3, Fin 7]"
    by (simp add: y0_def js_strict_eq_def set_add_def)
  have e: "engine wasm0 = ok_engine" by (simp add: wasm0_def)
  from classifier_fit_ok [OF assms(1) r o x c e assms(4)] show ?thesis by blast
qed

text \<open>
  Claim C10. When \<open>numRound\<close> holds a falsy value (0, NaN, the empty string, false,
  null, or no value at all), \<^verbatim>\<open>fit\<close> returns, and when it returns normally it has
  called \<^verbatim>\<open>update\<close> exactly 100 times; a call that throws has made at most 100
  such calls.
\<close>

theorem falsy_numRound_runs_100_rounds:
  assumes "\<not> truthy (obj_get (m_params m) ''numRound'')"
  shows "(\<exists>res. fit rt m X y w = Some res) \<and>
         (\<forall>u m' w'. fit rt m X y w = Some (Inr u, m', w') \<longrightarrow> updates w' = updates w + 100) \<and>
         (\<forall>r m' w'. fit rt m X y w = Some (r, m', w') \<longrightarrow> updates w' \<le> updates w + 100)"
proof -
  from assms
  have N: "round_count (ToNumber rt (js_or (obj_get (m_params m) ''numRound'') (JNum (Fin 100)))) = Some 100"
    by (simp add: js_or_def)
  from fit_terminates [OF N] fit_update_count [OF _ N] fit_count [OF N] show ?thesis by blast
qed

theorem falsy_numRound_runs_100_rounds_witness:
  "\<not> truthy (obj_get (m_params (binary0 (JNum (Fin 0)))) ''numRound'') \<and>
   (case fit rt0 (binary0 (JNum (Fin 0))) X0 y0 wasm0 of
      Some (Inr u, m', w') \<Rightarrow> updates w' = updates wasm0 + 100
    | _ \<Rightarrow> False)"
proof -
  have f: "\<not> truthy (obj_get (m_params (binary0 (JNum (Fin 0)))) ''numRound'')"
    by (simp add: binary0_def LGBModel_new_def obj_get_def)
  have "\<exists>m' w'. fit rt0 (binary0 (JNum (Fin 0))) X0 y0 wasm0 = Some (Inr (), m', w')"
    by (rule example_fit [where N = 100])
       (simp_all add: binary0_def LGBModel_new_def obj_get_def js_or_def)
  then obtain m' w' where e: "fit rt0 (binary0 (JNum (Fin 0))) X0 y0 wasm0 = Some (Inr (), m', w')"
    by blast
  with falsy_numRound_runs_100_rounds [OF f, of rt0 X0 y0 wasm0]
  have "updates w' = updates wasm0 + 100" by blast
  with f e show ?thesis by simp
qed

text \<open>
  Claim C2, as the code has it. When \<open>numRound\<close> is a positive integer \<open>n\<close> (up to
  \<open>2^53\<close>, past which the loop counter stops counting), \<^verbatim>\<open>fit\<close> returns, and a call
  that returns normally has called \<^verbatim>\<open>update\<close> exactly \<open>n\<close> times, and a call that
  throws at most \<open>n\<close> times; when the key is absent the same holds with 100. The engine
  is arbitrary, so no completion signal changes the count.
\<close>

theorem update_runs_numRound_rounds:
  "(obj_get (m_params m) ''numRound'' = JNum (Fin (real n)) \<and> 0 < n \<and> n \<le> 2 ^ 53 \<longrightarrow>
      (\<exists>res. fit rt m X y w = Some res) \<and>
      (\<forall>u m' w'. fit rt m X y w = Some (Inr u, m', w') \<longrightarrow> updates w' = updates w + n) \<and>
      (\<forall>r m' w'. fit rt m X y w = Some (r, m', w') \<longrightarrow> updates w' \<le> updates w + n)) \<and>
   (\<not> obj_has (m_params m) ''numRound'' \<longrightarrow>
      (\<exists>res. fit rt m X y w = Some res) \<and>
      (\<forall>u m' w'. fit rt m X y w = Some (Inr u, m', w') \<longrightarrow> updates w' = updates w + 100) \<and>
      (\<forall>r m' w'. fit rt m X y w = Some (r, m', w') \<longrightarrow> updates w' \<le> updates w + 100))"
proof (intro conjI impI)
  assume a: "obj_get (m_params m) ''numRound'' = JNum (Fin (real n)) \<and> 0 < n \<and> n \<le> 2 ^ 53"
  then have "real n \<le> 2 ^ 53"
    by (metis of_nat_le_iff of_nat_numeral of_nat_power)
  with a
  have N: "round_count (ToNumber rt (js_or (obj_get (m_params m) ''numRound'') (JNum (Fin 100)))) = Some n"
    by (simp add: js_or_def)
  from fit_terminates [OF N] show "\<exists>res. fit rt m X y w = Some res" .
  from fit_update_count [OF _ N]
  show "\<forall>u m' w'. fit rt m X y w = Some (Inr u, m', w') \<longrightarrow> updates w' = updates w + n" by blast
  from fit_count [OF N]
  show "\<forall>r m' w'. fit rt m X y w = Some (r, m', w') \<longrightarrow> updates w' \<le> updates w + n" by blast
next
  assume "\<not> obj_has (m_params m) ''numRound''"
  then have "obj_get (m_params m) ''numRound'' = JUndefined" by (rule obj_get_absent)
  then
  have N: "round_count (ToNumber rt (js_or (obj_get (m_params m) ''numRound'') (JNum (Fin 100)))) = Some 100"
    by (simp add: js_or_def)
  from fit_terminates [OF N] show "\<exists>res. fit rt m X y w = Some res" .
  from fit_update_count [OF _ N]
  show "\<forall>u m' w'. fit rt m X y w = Some (Inr u, m', w') \<longrightarrow> updates w' = updates w + 100" by blast
  from fit_count [OF N]
  show "\<forall>r m' w'. fit rt m X y w = Some (r, m', w') \<longrightarrow> updates w' \<le> updates w + 100" by blast
qed

theorem update_runs_numRound_rounds_witness:
  "obj_get (m_params (binary0 (JNum (Fin 3)))) ''numRound'' = JNum (Fin (real (3::nat))) \<and>
   (0::nat) < 3 \<and> (3::nat) \<le> 2 ^ 53 \<and>
   (case fit rt0 (binary0 (JNum (Fin 3))) X0 y0 wasm0 of
      Some (Inr u, m', w') \<Rightarrow> updates w' = updates wasm0 + 3
    | _ \<Rightarrow> False) \<and>
   \<not> obj_has (m_params binary_default) ''numRound'' \<and>
   (case fit rt0 binary_default X0 y0 wasm0 of
      Some (Inr u, m', w') \<Rightarrow> updates w' = updates wasm0 + 100
    | _ \<Rightarrow> False)"
proof -
  have p: "obj_get (m_params (binary0 (JNum (Fin 3)))) ''numRound'' = JNum (Fin (real (3::nat))) \<and>
      (0::nat) < 3 \<and> (3::nat) \<le> 2 ^ 53"
    by (simp add: binary0_def LGBModel_new_def obj_get_def)
  have a: "\<not> obj_has (m_params binary_default) ''numRound''"
    by (simp add: binary_default_def LGBModel_new_def obj_has_def)
  have "\<exists>m' w'. fit rt0 (binary0 (JNum (Fin 3))) X0 y0 wasm0 = Some (Inr (), m', w')"
    by (rule example_fit [where N = 3])
       (simp_all add: binary0_def LGBModel_new_def obj_get_def js_or_def)
  then obtain m1 w1 where e1: "fit rt0 (binary0 (JNum (Fin 3))) X0 y0 wasm0 = Some (Inr (), m1, w1)"
    by blast
  have "\<exists>m' w'. fit rt0 binary_default X0 y0 wasm0 = Some (Inr (), m', w')"
    by (rule example_fit [where N = 100])
       (simp_all add: binary_default_def LGBModel_new_def obj_get_def js_or_def)
  then obtain m2 w2 where e2: "fit rt0 binary_default X0 y0 wasm0 = Some (Inr (), m2, w2)"
    by blast
  from p e1 update_runs_numRound_rounds [of "binary0 (JNum (Fin 3))" 3 rt0 X0 y0 wasm0]
  have u1: "updates w1 = updates wasm0 + 3" by blast
  from a e2 update_runs_numRound_rounds [of binary_default 3 rt0 X0 y0 wasm0]
  have u2: "updates w2 = updates wasm0 + 100" by blast
  from p a e1 e2 u1 u2 show ?thesis by simp
qed

text \<open>
  The claim as written fails for \<open>numRound = 0\<close>: \<^verbatim>\<open>numRound || 100\<close> makes it 100
  rounds, not none.
\<close>

theorem update_runs_numRound_rounds_counterexample:
  "obj_get (m_params (binary0 (JNum (Fin 0)))) ''numRound'' = JNum (Fin 0) \<and>
   (case fit rt0 (binary0 (JNum (Fin 0))) X0 y0 wasm0 of
      Some (Inr u, m', w') \<Rightarrow> updates w' - updates wasm0 = 100
    | _ \<Rightarrow> False)"
proof -
  have N: "round_count (ToNumber rt0 (js_or (obj_get (m_params (binary0 (JNum (Fin 0)))) ''numRound'')
      (JNum (Fin 100)))) = Some 100"
    by (simp add: binary0_def LGBModel_new_def obj_get_def js_or_def)
  have "\<exists>m' w'. fit rt0 (binary0 (JNum (Fin 0))) X0 y0 wasm0 = Some (Inr (), m', w')"
    by (rule example_fit [where N = 100])
       (simp_all add: binary0_def LGBModel_new_def obj_get_def js_or_def)
  then obtain m' w' where e: "fit rt0 (binary0 (JNum (Fin 0))) X0 y0 wasm0 = Some (Inr (), m', w')"
    by blast
  from fit_update_count [OF e N] e show ?thesis
    by (simp add: binary0_def LGBModel_new_def obj_get_def)
qed

subsection \<open>The task shorthand\<close>

lemma fold_set_add:
  "set (fold (\<lambda>v u. set_add u v) y u) = set u \<union> set y \<and>
   (distinct u \<longrightarrow> distinct (fold (\<lambda>v u. set_add u v) y u))"
  by (induction y arbitrary: u) (auto simp: set_add_def)

lemma unique_count: "length (fold (\<lambda>v u. set_add u v) y []) = card (set y)"
proof -
  have "distinct (fold (\<lambda>v u. set_add u v) y [])" and "set (fold (\<lambda>v u. set_add u v) y []) = set y"
    using fold_set_add [of y "[]"] by simp_all
  then show ?thesis by (metis distinct_card)
qed

lemma fit_params:
  assumes "fit rt m X y w = Some (Inr u, m', w')"
  obtains m1 where "resolveTask m y = Inr m1" "m_params m' = m_params m1" "m_freed m' = False"
proof -
  from assms obtain m1 w1 xData rows cols m3 yTrain b where
    nd: "\<not> m_freed m" and m1: "resolveTask m y = Inr m1"
    and L: "prepare_labels (objective_of m1) y (m1\<lparr>m_booster := None\<rparr>) = Inr (m3, yTrain)"
    and m': "m' = m3\<lparr>m_booster := Some b, m_fitted := True\<rparr>"
    by (rule fit_success)
  from prepare_labels_fields [OF L] resolveTask_fields [OF m1] nd m'
  have "m_params m' = m_params m1" "m_freed m' = False" by simp_all
  with m1 show thesis by (rule that)
qed

text \<open>
  On a model that is not disposed and holds a truthy \<open>task\<close> and a truthy \<open>objective\<close>,
  \<^verbatim>\<open>fit\<close> throws the conflict error before anything changes, and every call but
  \<^verbatim>\<open>dispose\<close> and a \<^verbatim>\<open>setParams\<close> that gives one of the two a falsy value leaves the model
  so.
\<close>

lemma obj_assign_truthy:
  "truthy (obj_get t k) \<Longrightarrow> list_all (\<lambda>(k', v). k' = k \<longrightarrow> truthy v) p \<Longrightarrow>
   truthy (obj_get (obj_assign t p) k)"
  unfolding obj_assign_def
  by (induction p arbitrary: t) (auto simp: obj_get_obj_set)

lemma fit_conflict:
  assumes "\<not> m_freed m" and "truthy (obj_get (m_params m) ''task'')"
    and "truthy (obj_get (m_params m) ''objective'')"
  shows "fit rt m X y w = Some (Inl TaskObjectiveConflict, m, w)"
  using assms by (simp add: fit_def ensureNotDisposed_def resolveTask_def)

lemma invoke_keeps_conflict:
  assumes "\<not> m_freed m" and "truthy (obj_get (m_params m) ''task'')"
    and "truthy (obj_get (m_params m) ''objective'')"
    and "keeps_conflict c"
  shows "\<exists>m1 w1. invoke rt c m w = Some (m1, w1) \<and> \<not> m_freed m1 \<and>
           truthy (obj_get (m_params m1) ''task'') \<and>
           truthy (obj_get (m_params m1) ''objective'') \<and>
           m_params m1 = assigned [c] (m_params m)"
proof (cases c)
  case (CallFit X y)
  with assms show ?thesis by (simp add: fit_conflict)
next
  case (CallSetParams p)
  with assms(4) have "list_all (\<lambda>(k', v). k' = ''task'' \<longrightarrow> truthy v) p"
    and "list_all (\<lambda>(k', v). k' = ''objective'' \<longrightarrow> truthy v) p"
    by (auto simp: list_all_iff)
  with assms CallSetParams show ?thesis
    by (simp add: setParams_def obj_assign_truthy)
qed (use assms in simp_all)

lemma assigned_append: "assigned (cs @ ds) ps = assigned ds (assigned cs ps)"
  by (induction cs ps rule: assigned.induct) simp_all

lemma invoke_all_keeps_conflict:
  assumes "\<forall>c\<in>set cs. keeps_conflict c"
    and "\<not> m_freed m" and "truthy (obj_get (m_params m) ''task'')"
    and "truthy (obj_get (m_params m) ''objective'')"
  shows "\<exists>m2 w2. invoke_all rt cs m w = Some (m2, w2) \<and> \<not> m_freed m2 \<and>
           truthy (obj_get (m_params m2) ''task'') \<and>
           truthy (obj_get (m_params m2) ''objective'') \<and>
           m_params m2 = assigned cs (m_params m)"
  using assms
proof (induction cs arbitrary: m w)
  case Nil
  then show ?case by simp
next
  case (Cons c cs)
  from Cons.prems have k: "keeps_conflict c" by simp
  from invoke_keeps_conflict [OF Cons.prems(2,3,4) k, of rt w]
  obtain m1 w1 where s: "invoke rt c m w = Some (m1, w1)" and f: "\<not> m_freed m1"
    and t: "truthy (obj_get (m_params m1) ''task'')"
    and ob: "truthy (obj_get (m_params m1) ''objective'')"
    and p: "m_params m1 = assigned [c] (m_params m)" by blast
  from Cons.prems have "\<forall>c\<in>set cs. keeps_conflict c" by simp
  from Cons.IH [OF this f t ob, of w1] obtain m2 w2 where
    "invoke_all rt cs m1 w1 = Some (m2, w2)" "\<not> m_freed m2"
    "truthy (obj_get (m_params m2) ''task'')" "truthy (obj_get (m_params m2) ''objective'')"
    "m_params m2 = assigned cs (m_params m1)" by blast
  with s p show ?case
    using assigned_append [of "[c]" cs "m_params m"] by simp
qed

lemma fit_engine:
  assumes "fit rt m X y w = Some (Inr u, m', w')"
  shows "engine w' = engine w"
proof -
  from assms obtain m1 w1 xData rows cols m3 yTrain b where
    "\<not> m_freed m" "resolveTask m y = Inr m1"
    and d: "dispose_previous m1 w = (m1\<lparr>m_booster := None\<rparr>, w1)"
    and "normalizeX X = Inr (xData, rows, cols)"
    and "prepare_labels (objective_of m1) y (m1\<lparr>m_booster := None\<rparr>) = Inr (m3, yTrain)"
    and "f32_length yTrain = rows"
    and T: "train xData rows cols
       (paramStr_of rt (build_lgbParams (m_params m3) (objective_of m1) (m_nrClass m3)))
       yTrain (ToNumber rt (js_or (obj_get (m_params m3) ''numRound'') (JNum (Fin 100)))) w1
     = Some (Inr b, w')"
    and "m' = m3\<lparr>m_booster := Some b, m_fitted := True\<rparr>"
    by (rule fit_success)
  from train_trace [OF T] have "engine w' = engine w1" by blast
  moreover from d dispose_previous_engine [of m1 w] have "engine w1 = engine w" by simp
  ultimately show ?thesis by simp
qed

text \<open>
  Claim C9, as the code has it. After a call of \<^verbatim>\<open>fit\<close> that returned normally on a model
  with a task and no objective, the hyperparameters hold the task as before and the
  objective the task was resolved to (with \<open>num_class\<close> when the labels had more than two
  distinct values). From then on, through every sequence of calls on the model with no
  \<^verbatim>\<open>dispose\<close> and no \<^verbatim>\<open>setParams\<close> that gives \<open>task\<close> or \<open>objective\<close> a falsy value, every
  call returns, the hyperparameters change only by what \<^verbatim>\<open>setParams\<close> assigns, and a call
  of \<^verbatim>\<open>fit\<close> throws the conflict error and changes nothing.
\<close>

theorem task_shorthand_persists:
  assumes "fit rt m X y w = Some (Inr u, m', w')"
    and "truthy (obj_get (m_params m) ''task'')"
    and "\<not> truthy (obj_get (m_params m) ''objective'')"
  shows "obj_get (m_params m') ''task'' = obj_get (m_params m) ''task'' \<and>
         obj_get (m_params m') ''objective'' =
           (if obj_get (m_params m) ''task'' = JStr ''regression'' then JStr ''regression''
            else if 2 < card (set y) then JStr ''multiclass'' else JStr ''binary'') \<and>
         (obj_get (m_params m) ''task'' = JStr ''classification'' \<and> 2 < card (set y) \<longrightarrow>
            obj_get (m_params m') ''num_class'' = JNum (Fin (real (card (set y))))) \<and>
         (\<forall>rt' cs w0. (\<forall>c\<in>set cs. keeps_conflict c) \<longrightarrow>
            (\<exists>m2 w2. invoke_all rt' cs m' w0 = Some (m2, w2) \<and>
               m_params m2 = assigned cs (m_params m') \<and>
               (\<forall>X' y'. fit rt' m2 X' y' w2 = Some (Inl TaskObjectiveConflict, m2, w2))))"
proof -
  from assms(1) obtain m1 where m1: "resolveTask m y = Inr m1"
    and p: "m_params m' = m_params m1" and f: "m_freed m' = False"
    by (rule fit_params)
  from m1 assms(2,3)
  have t: "obj_get (m_params m1) ''task'' = obj_get (m_params m) ''task''"
    and o: "obj_get (m_params m1) ''objective'' =
           (if obj_get (m_params m) ''task'' = JStr ''regression'' then JStr ''regression''
            else if 2 < card (set y) then JStr ''multiclass'' else JStr ''binary'')"
    and n: "obj_get (m_params m) ''task'' = JStr ''classification'' \<and> 2 < card (set y) \<longrightarrow>
            obj_get (m_params m1) ''num_class'' = JNum (Fin (real (card (set y))))"
    by (auto simp: resolveTask_def Let_def obj_get_obj_set unique_count split: if_splits)
  from o have "truthy (obj_get (m_params m1) ''objective'')" by simp
  with t assms(2) p f
  have l: "\<not> m_freed m'" "truthy (obj_get (m_params m') ''task'')"
    "truthy (obj_get (m_params m') ''objective'')" by simp_all
  have "\<exists>m2 w2. invoke_all rt' cs m' w0 = Some (m2, w2) \<and>
               m_params m2 = assigned cs (m_params m') \<and>
               (\<forall>X' y'. fit rt' m2 X' y' w2 = Some (Inl TaskObjectiveConflict, m2, w2))"
    if k: "\<forall>c\<in>set cs. keeps_conflict c" for rt' cs w0
  proof -
    from invoke_all_keeps_conflict [OF k l, of rt' w0] obtain m2 w2 where
      "invoke_all rt' cs m' w0 = Some (m2, w2)" "\<not> m_freed m2"
      "truthy (obj_get (m_params m2) ''task'')" "truthy (obj_get (m_params m2) ''objective'')"
      "m_params m2 = assigned cs (m_params m')" by blast
    then show ?thesis by (simp add: fit_conflict)
  qed
  with t o n p show ?thesis by simp
qed

theorem task_shorthand_persists_witness:
  "truthy (obj_get (m_params task_model) ''task'') \<and>
   \<not> truthy (obj_get (m_params task_model) ''objective'') \<and>
   list_all keeps_conflict
     [CallPredict X1, CallSetParams [(''numRound'', JNum (Fin 5))], CallFit X1 y1, CallSave] \<and>
   (case fit rt0 task_model X1 y1 wasm0 of
      Some (Inr u, m', w') \<Rightarrow>
        obj_get (m_params m') ''task'' = JStr ''classification'' \<and>
        obj_get (m_params m') ''objective'' = JStr ''multiclass'' \<and>
        obj_get (m_params m') ''num_class'' = JNum (Fin 3) \<and>
        (case invoke_all rt0
                [CallPredict X1, CallSetParams [(''numRound'', JNum (Fin 5))], CallFit X1 y1, CallSave]
                m' w' of
           Some (m2, w2) \<Rightarrow>
             obj_get (m_params m2) ''task'' = JStr ''classification'' \<and>
             obj_get (m_params m2) ''objective'' = JStr ''multiclass'' \<and>
             obj_get (m_params m2) ''numRound'' = JNum (Fin 5) \<and>
             fit rt0 m2 X1 y1 w2 = Some (Inl TaskObjectiveConflict, m2, w2)
         | None \<Rightarrow> False)
    | _ \<Rightarrow> False)"
proof -
  let ?cs = "[CallPredict X1, CallSetParams [(''numRound'', JNum (Fin 5))], CallFit X1 y1, CallSave]"
  have t: "truthy (obj_get (m_params task_model) ''task'')"
    and o: "\<not> truthy (obj_get (m_params task_model) ''objective'')"
    and tv: "obj_get (m_params task_model) ''task'' = JStr ''classification''"
    by (simp_all add: task_model_def LGBModel_new_def obj_get_def)
  have c: "card (set y1) = 3" by (simp add: y1_def)
  have k: "\<forall>c\<in>set ?cs. keeps_conflict c" by simp
  define m1 where "m1 = task_model\<lparr>m_params :=
      [(''task'', JStr ''classification''), (''objective'', JStr ''multiclass''),
       (''num_class'', JNum (Fin 3))]\<rparr>"
  have r: "resolveTask task_model y1 = Inr m1"
    by (simp add: resolveTask_def task_model_def LGBModel_new_def obj_get_def y1_def set_add_def m1_def)
  have "\<exists>w'. fit rt0 task_model X1 y1 wasm0 =
           Some (Inr (), m1\<lparr>m_nrClass := length (array_sort js_sub [Fin 5, Fin 6, Fin 9]),
                              m_classes := Some (map ToInt32 (array_sort js_sub [Fin 5, Fin 6, Fin 9])),
                              m_booster := Some (Booster_loaded 7), m_fitted := True\<rparr>, w')"
    by (rule classifier_fit_ok [OF _ r, where N = 100 and cols = 1])
       (simp_all add: task_model_def LGBModel_new_def m1_def objective_of_def obj_get_def js_or_def
          CLASSIFIER_OBJECTIVES_def X1_def y1_def Let_def arr_get_def num_of_def wasm0_def
          js_strict_eq_def set_add_def)
  then obtain m' w' where e: "fit rt0 task_model X1 y1 wasm0 = Some (Inr (), m', w')" by blast
  note T = task_shorthand_persists [OF e t o]
  from T tv c have p: "obj_get (m_params m') ''task'' = JStr ''classification''"
    "obj_get (m_params m') ''objective'' = JStr ''multiclass''"
    "obj_get (m_params m') ''num_class'' = JNum (Fin 3)" by simp_all
  have "\<exists>m2 w2. invoke_all rt0 ?cs m' w' = Some (m2, w2) \<and>
           m_params m2 = assigned ?cs (m_params m') \<and>
           (\<forall>X' y'. fit rt0 m2 X' y' w2 = Some (Inl TaskObjectiveConflict, m2, w2))"
    by (rule T [THEN conjunct2, THEN conjunct2, THEN conjunct2, THEN spec, THEN spec, THEN spec,
          THEN mp, OF k])
  then obtain m2 w2 where i: "invoke_all rt0 ?cs m' w' = Some (m2, w2)"
    and ps: "m_params m2 = assigned ?cs (m_params m')"
    and f: "fit rt0 m2 X1 y1 w2 = Some (Inl TaskObjectiveConflict, m2, w2)" by blast
  from ps p have "obj_get (m_params m2) ''task'' = JStr ''classification''"
    "obj_get (m_params m2) ''objective'' = JStr ''multiclass''"
    "obj_get (m_params m2) ''numRound'' = JNum (Fin 5)"
    by (simp_all add: obj_assign_def obj_get_obj_set)
  with t o p e i f show ?thesis by simp
qed

text \<open>
  The claim as written fails in two ways on the model the first \<^verbatim>\<open>fit\<close> left: after
  \<^verbatim>\<open>dispose()\<close> the next \<^verbatim>\<open>fit\<close> throws the disposed error, which is tested first, and
  after \<^verbatim>\<open>setParams({ task: null })\<close> the next \<^verbatim>\<open>fit\<close> returns normally, still under the
  objective the first one wrote.
\<close>

theorem task_shorthand_persists_counterexample:
  "(case fit rt0 task_model X1 y1 wasm0 of
      Some (Inr u, m', w') \<Rightarrow>
        (case dispose m' w' of
           (m2, w2) \<Rightarrow> fit rt0 m2 X1 y1 w2 = Some (Inl DisposedError, m2, w2)) \<and>
        (case fit rt0 (setParams m' [(''task'', JNull)]) X1 y1 w' of
           Some (Inr u', m3, w3) \<Rightarrow>
             m_fitted m3 \<and> obj_get (m_params m3) ''objective'' = JStr ''multiclass''
         | _ \<Rightarrow> False)
    | _ \<Rightarrow> False)"
proof -
  define m1 where "m1 = task_model\<lparr>m_params :=
      [(''task'', JStr ''classification''), (''objective'', JStr ''multiclass''),
       (''num_class'', JNum (Fin 3))]\<rparr>"
  define m' where "m' = m1\<lparr>m_nrClass := length (array_sort js_sub [Fin 5, Fin 6, Fin 9]),
                           m_classes := Some (map ToInt32 (array_sort js_sub [Fin 5, Fin 6, Fin 9])),
                           m_booster := Some (Booster_loaded 7), m_fitted := True\<rparr>"
  define m'' where "m'' = setParams m' [(''task'', JNull)]"
  have r: "resolveTask task_model y1 = Inr m1"
    by (simp add: resolveTask_def task_model_def LGBModel_new_def obj_get_def y1_def set_add_def m1_def)
  have "\<exists>w'. fit rt0 task_model X1 y1 wasm0 = Some (Inr (), m', w')"
    unfolding m'_def
    by (rule classifier_fit_ok [OF _ r, where N = 100 and cols = 1])
       (simp_all add: task_model_def LGBModel_new_def m1_def objective_of_def obj_get_def js_or_def
          CLASSIFIER_OBJECTIVES_def X1_def y1_def Let_def arr_get_def num_of_def wasm0_def
          js_strict_eq_def set_add_def)
  then obtain w' where e: "fit rt0 task_model X1 y1 wasm0 = Some (Inr (), m', w')" by blast
  from fit_engine [OF e] have en: "engine w' = ok_engine" by (simp add: wasm0_def)
  have d: "case dispose m' w' of
             (m2, w2) \<Rightarrow> fit rt0 m2 X1 y1 w2 = Some (Inl DisposedError, m2, w2)"
    by (simp add: dispose_def m'_def m1_def task_model_def LGBModel_new_def Let_def fit_def
          ensureNotDisposed_def split: prod.splits)
  have ps: "m_params m'' = [(''task'', JNull), (''objective'', JStr ''multiclass''),
       (''num_class'', JNum (Fin 3))]"
    by (simp add: m''_def setParams_def obj_assign_def m'_def m1_def)
  have r2: "resolveTask m'' y1 = Inr m''"
    by (simp add: resolveTask_def ps obj_get_def)
  have "\<exists>w3. fit rt0 m'' X1 y1 w' =
      Some (Inr (), m''\<lparr>m_nrClass := length (array_sort js_sub [Fin 5, Fin 6, Fin 9]),
                        m_classes := Some (map ToInt32 (array_sort js_sub [Fin 5, Fin 6, Fin 9])),
                        m_booster := Some (Booster_loaded 7), m_fitted := True\<rparr>, w3)"
    by (rule classifier_fit_ok [OF _ r2 _ _ _ en, where N = 100 and cols = 1])
       (simp_all add: ps objective_of_def obj_get_def js_or_def
          CLASSIFIER_OBJECTIVES_def X1_def y1_def Let_def arr_get_def num_of_def
          js_strict_eq_def set_add_def,
        simp add: m''_def setParams_def m'_def m1_def task_model_def LGBModel_new_def)
  then obtain w3 where e2: "fit rt0 m'' X1 y1 w' =
      Some (Inr (), m''\<lparr>m_nrClass := length (array_sort js_sub [Fin 5, Fin 6, Fin 9]),
                        m_classes := Some (map ToInt32 (array_sort js_sub [Fin 5, Fin 6, Fin 9])),
                        m_booster := Some (Booster_loaded 7), m_fitted := True\<rparr>, w3)" by blast
  show ?thesis
    unfolding e using d e2 [unfolded m''_def]
    by (simp add: ps [unfolded m''_def] obj_get_def)
qed

subsection \<open>Fitting again\<close>

lemma fit_trace:
  assumes "\<not> m_freed m" and "resolveTask m y = Inr m1"
    and "fit rt m X y w = Some (r, m', w')"
  shows "\<exists>ext. trace w' = trace (snd (dispose_previous m1 w)) @ ext"
proof -
  define w1 where "w1 = snd (dispose_previous m1 w)"
  have w1: "dispose_previous m1 w = (m1\<lparr>m_booster := None\<rparr>, w1)"
    by (simp add: w1_def dispose_previous_eq)
  have "\<exists>ext. trace w' = trace w1 @ ext"
    using assms w1
    by (auto simp: fit_def ensureNotDisposed_def Let_def
          split: sum.splits prod.splits if_splits option.splits
          dest!: train_trace)
  then show ?thesis by (simp add: w1_def)
qed

text \<open>
  Claim C3, as the code has it. On a model that holds a live booster and is not
  disposed, a call of \<^verbatim>\<open>fit\<close> whose task resolution does not throw first releases that
  booster: the release is the first call to reach the engine, before any booster is
  created. When the call returns normally the model is fitted and holds the booster
  created in that call, which the call has not released.
\<close>

theorem refit_releases_previous_booster:
  assumes "m_booster m = Some old" and "\<not> b_freed old" and "\<not> m_freed m"
    and "resolveTask m y = Inr m1"
    and "fit rt m X y w = Some (r, m', w')"
  shows "\<exists>rest. trace w' = trace w @ BoosterFree (from_handle (b_handle old)) # rest \<and>
           (r = Inr () \<longrightarrow>
              m_fitted m' \<and> \<not> m_freed m' \<and>
              (\<exists>pre d ps post.
                 rest = pre @ BoosterCreate d ps # post \<and>
                 (\<forall>h. BoosterFree h \<notin> set post) \<and>
                 m_booster m' =
                   Some \<lparr>b_handle = Some (out_i32 (engine w
                            (trace w @ BoosterFree (from_handle (b_handle old)) # pre @ [BoosterCreate d ps]))),
                         b_freed = False\<rparr>))"
proof -
  define h where "h = from_handle (b_handle old)"
  define w1 where "w1 = w\<lparr>trace := trace w @ [BoosterFree h]\<rparr>"
  from assms(1,2) resolveTask_fields(1) [OF assms(4)]
  have d: "dispose_previous m1 w = (m1\<lparr>m_booster := None\<rparr>, w1)"
    by (simp add: dispose_previous_eq w1_def h_def)
  from fit_trace [OF assms(3,4,5)] d obtain rest where rest: "trace w' = trace w @ BoosterFree h # rest"
    by (auto simp: w1_def)
  have "m_fitted m' \<and> \<not> m_freed m' \<and>
        (\<exists>pre d ps post.
           rest = pre @ BoosterCreate d ps # post \<and> (\<forall>h. BoosterFree h \<notin> set post) \<and>
           m_booster m' =
             Some \<lparr>b_handle = Some (out_i32 (engine w (trace w @ BoosterFree h # pre @ [BoosterCreate d ps]))),
                   b_freed = False\<rparr>)"
    if "r = Inr ()"
  proof -
    from assms(5) that obtain m1' w1' xData rows cols m3 yTrain b where
      m1': "resolveTask m y = Inr m1'"
      and w1': "dispose_previous m1' w = (m1'\<lparr>m_booster := None\<rparr>, w1')"
      and L: "prepare_labels (objective_of m1') y (m1'\<lparr>m_booster := None\<rparr>) = Inr (m3, yTrain)"
      and T: "train xData rows cols
         (paramStr_of rt (build_lgbParams (m_params m3) (objective_of m1') (m_nrClass m3)))
         yTrain (ToNumber rt (js_or (obj_get (m_params m3) ''numRound'') (JNum (Fin 100)))) w1'
       = Some (Inr b, w')"
      and m': "m' = m3\<lparr>m_booster := Some b, m_fitted := True\<rparr>"
      by (auto elim: fit_success)
    from m1' assms(4) have "m1' = m1" by simp
    with w1' d have w1'_eq: "w1' = w1" by simp
    define ps where "ps = paramStr_of rt (build_lgbParams (m_params m3) (objective_of m1') (m_nrClass m3))"
    define t1 where "t1 = trace w1 @ [DatasetCreateFromMat xData rows cols ps]"
    define dh where "dh = out_i32 (engine w1 t1)"
    define pre where "pre = [DatasetCreateFromMat xData rows cols ps,
        DatasetSetField dh ''label'' yTrain (f32_length yTrain) 0]"
    from train_success [OF T [unfolded w1'_eq]] obtain n where
      b: "b = \<lparr>b_handle = Some (out_i32 (engine w1 (trace w1 @ pre @ [BoosterCreate dh ps]))), b_freed = False\<rparr>"
      and w': "trace w' = trace w1 @ pre @ BoosterCreate dh ps #
          replicate n (BoosterUpdate (out_i32 (engine w1 (trace w1 @ pre @ [BoosterCreate dh ps])))) @
          [DatasetFree dh]"
      by (auto simp: ps_def t1_def dh_def pre_def)
    from w' rest have r: "rest = pre @ BoosterCreate dh ps #
          (replicate n (BoosterUpdate (out_i32 (engine w1 (trace w1 @ pre @ [BoosterCreate dh ps])))) @
          [DatasetFree dh])"
      by (simp add: w1_def)
    have nf: "\<forall>h'. BoosterFree h' \<notin>
        set (replicate n (BoosterUpdate (out_i32 (engine w1 (trace w1 @ pre @ [BoosterCreate dh ps])))) @
          [DatasetFree dh])"
      by auto
    from prepare_labels_fields [OF L] resolveTask_fields [OF m1'] assms(3) m'
    have "m_fitted m'" "\<not> m_freed m'" by simp_all
    moreover have "m_booster m' = Some \<lparr>b_handle = Some (out_i32 (engine w
        (trace w @ BoosterFree h # pre @ [BoosterCreate dh ps]))), b_freed = False\<rparr>"
      using m' b by (simp add: w1_def)
    ultimately show ?thesis using r nf by blast
  qed
  with rest show ?thesis unfolding h_def by blast
qed

theorem refit_releases_previous_booster_witness:
  "m_booster classifier0 = Some (Booster_loaded 4) \<and> \<not> b_freed (Booster_loaded 4) \<and>
   \<not> m_freed classifier0 \<and> resolveTask classifier0 y0 = Inr classifier0 \<and>
   (case fit rt0 classifier0 X0 y0 wasm0 of
      Some (Inr u, m', w') \<Rightarrow>
        take 1 (trace w') = [BoosterFree 4] \<and> m_fitted m' \<and> \<not> m_freed m' \<and>
        m_booster m' = Some (Booster_loaded 7)
    | _ \<Rightarrow> False)"
proof -
  have b: "m_booster classifier0 = Some (Booster_loaded 4)"
    and l: "\<not> b_freed (Booster_loaded 4)"
    and d: "\<not> m_freed classifier0"
    and r: "resolveTask classifier0 y0 = Inr classifier0"
    by (simp_all add: classifier0_def LGBModel_loaded_def Booster_loaded_def resolveTask_def obj_get_def)
  have "\<exists>w'. fit rt0 classifier0 X0 y0 wasm0 =
      Some (Inr (), classifier0\<lparr>m_nrClass := length (array_sort js_sub [Fin 3, Fin 7]),
                               m_classes := Some (map ToInt32 (array_sort js_sub [Fin 3, Fin 7])),
                               m_booster := Some (Booster_loaded 7), m_fitted := True\<rparr>, w')"
    by (rule classifier_fit_ok [OF d r, where N = 100 and cols = 2])
       (simp_all add: classifier0_def LGBModel_loaded_def objective_of_def obj_get_def js_or_def
          CLASSIFIER_OBJECTIVES_def X0_def y0_def Let_def arr_get_def num_of_def wasm0_def
          js_strict_eq_def set_add_def)
  then obtain m' w' where e: "fit rt0 classifier0 X0 y0 wasm0 = Some (Inr (), m', w')" by blast
  from refit_releases_previous_booster [OF b l d r e]
  have "take 1 (trace w') = [BoosterFree 4] \<and> m_fitted m' \<and> \<not> m_freed m' \<and>
        m_booster m' = Some (Booster_loaded 7)"
    by (auto simp: wasm0_def Booster_loaded_def from_handle_def ok_engine_def ok_reply_def)
  with b l d r e show ?thesis by simp
qed

text \<open>
  The claim as written fails on a model fitted through the task shorthand: the next call
  of \<^verbatim>\<open>fit\<close> throws the conflict error before it reaches the release, and the model
  keeps the booster it had (the engine receives no call).
\<close>

theorem refit_releases_previous_booster_counterexample:
  "(case fit rt0 task_model X1 y1 wasm0 of
      Some (Inr u, m', w') \<Rightarrow>
        m_fitted m' \<and> \<not> m_freed m' \<and> m_booster m' \<noteq> None \<and>
        fit rt0 m' X1 y1 w' = Some (Inl TaskObjectiveConflict, m', w')
    | _ \<Rightarrow> False)"
proof -
  define m1 where "m1 = task_model\<lparr>m_params :=
      [(''task'', JStr ''classification''), (''objective'', JStr ''multiclass''),
       (''num_class'', JNum (Fin 3))]\<rparr>"
  have r: "resolveTask task_model y1 = Inr m1"
    by (simp add: resolveTask_def task_model_def LGBModel_new_def obj_get_def y1_def set_add_def m1_def)
  have "\<exists>w'. fit rt0 task_model X1 y1 wasm0 =
           Some (Inr (), m1\<lparr>m_nrClass := length (array_sort js_sub [Fin 5, Fin 6, Fin 9]),
                              m_classes := Some (map ToInt32 (array_sort js_sub [Fin 5, Fin 6, Fin 9])),
                              m_booster := Some (Booster_loaded 7), m_fitted := True\<rparr>, w')"
    by (rule classifier_fit_ok [OF _ r, where N = 100 and cols = 1])
       (simp_all add: task_model_def LGBModel_new_def m1_def objective_of_def obj_get_def js_or_def
          CLASSIFIER_OBJECTIVES_def X1_def y1_def Let_def arr_get_def num_of_def wasm0_def
          js_strict_eq_def set_add_def)
  then obtain w' where e: "fit rt0 task_model X1 y1 wasm0 =
           Some (Inr (), m1\<lparr>m_nrClass := length (array_sort js_sub [Fin 5, Fin 6, Fin 9]),
                              m_classes := Some (map ToInt32 (array_sort js_sub [Fin 5, Fin 6, Fin 9])),
                              m_booster := Some (Booster_loaded 7), m_fitted := True\<rparr>, w')" by blast
  show ?thesis
    unfolding e
    by (simp add: m1_def task_model_def LGBModel_new_def fit_def ensureNotDisposed_def
          resolveTask_def obj_get_def)
qed

subsection \<open>Decoding predictions\<close>

lemma js_lt_trans: "js_lt a b \<Longrightarrow> js_lt b c \<Longrightarrow> js_lt a c"
  by (cases a; cases b; cases c) auto

lemma js_lt_irrefl: "\<not> js_lt a a"
  by (cases a) auto

lemma js_lt_total: "a \<noteq> NaN \<Longrightarrow> b \<noteq> NaN \<Longrightarrow> js_lt a b \<or> a = b \<or> js_lt b a"
  by (cases a; cases b) auto

text \<open>
  The scan keeps the first index of the largest value seen: nothing before \<open>n\<close> is
  larger than the value at the result, and everything before the result is smaller.
\<close>

lemma scan_first_max:
  fixes f :: "nat \<Rightarrow> f64"
  assumes "\<forall>c<n. f c \<noteq> NaN" and "0 < n"
  defines "k \<equiv> fold (\<lambda>c best. if js_gt (f c) (f best) then c else best) [1..<n] 0"
  shows "k < n \<and> (\<forall>c<n. \<not> js_lt (f k) (f c)) \<and> (\<forall>c<k. js_lt (f c) (f k))"
  using assms(1,2) unfolding k_def
proof (induction n)
  case 0
  then show ?case by simp
next
  case (Suc n)
  show ?case
  proof (cases "n = 0")
    case True
    then show ?thesis by (simp add: js_lt_irrefl)
  next
    case False
    define k where "k = fold (\<lambda>c best. if js_gt (f c) (f best) then c else best) [1..<n] 0"
    from False Suc have IH: "k < n" "\<forall>c<n. \<not> js_lt (f k) (f c)" "\<forall>c<k. js_lt (f c) (f k)"
      by (simp_all add: k_def)
    from False have upt: "[1..<Suc n] = [1..<n] @ [n]" by simp
    have nn: "f n \<noteq> NaN" "f k \<noteq> NaN" using Suc.prems IH(1) by simp_all
    have step: "fold (\<lambda>c best. if js_gt (f c) (f best) then c else best) [1..<Suc n] 0 =
        (if js_lt (f k) (f n) then n else k)"
      unfolding upt k_def by (simp add: js_gt_def)
    show ?thesis
    proof (cases "js_lt (f k) (f n)")
      case True
      have "\<forall>c<Suc n. \<not> js_lt (f n) (f c)"
      proof (intro allI impI)
        fix c assume "c < Suc n"
        show "\<not> js_lt (f n) (f c)"
        proof (cases "c = n")
          case True then show ?thesis by (simp add: js_lt_irrefl)
        next
          case False
          with \<open>c < Suc n\<close> have "c < n" by simp
          with IH(2) have "\<not> js_lt (f k) (f c)" by simp
          with True show ?thesis using js_lt_trans by blast
        qed
      qed
      moreover have "\<forall>c<n. js_lt (f c) (f n)"
      proof (intro allI impI)
        fix c assume c: "c < n"
        with IH(2) have nlt: "\<not> js_lt (f k) (f c)" by simp
        from c Suc.prems have "f c \<noteq> NaN" by simp
        from js_lt_total [OF this nn(2)] nlt have "js_lt (f c) (f k) \<or> f c = f k" by blast
        with True show "js_lt (f c) (f n)" using js_lt_trans by metis
      qed
      ultimately show ?thesis unfolding step using True by simp
    next
      case F: False
      have "\<forall>c<Suc n. \<not> js_lt (f k) (f c)"
        using IH(2) F by (auto simp: less_Suc_eq)
      with IH F show ?thesis unfolding step by simp
    qed
  qed
qed

lemma row_index: "i < rows \<Longrightarrow> c < nc \<Longrightarrow> i * nc + c < rows * (nc::nat)"
proof -
  assume i: "i < rows" and c: "c < nc"
  then have "i * nc + c < i * nc + nc" by simp
  also have "\<dots> = Suc i * nc" by simp
  also from i have "\<dots> \<le> rows * nc" by (intro mult_le_mono1) simp
  finally show ?thesis .
qed

lemma argmax_scan_first_max:
  assumes "0 < nc" and "rows * nc \<le> length raw" and "\<forall>x\<in>set raw. x \<noteq> NaN" and "i < rows"
  defines "k \<equiv> argmax_scan raw nc i"
  shows "k < nc \<and> (\<forall>c<nc. \<not> js_lt (raw ! (i * nc + k)) (raw ! (i * nc + c))) \<and>
         (\<forall>c<k. js_lt (raw ! (i * nc + c)) (raw ! (i * nc + k)))"
proof -
  define f where "f c = num_of (arr_get raw (i * nc + c))" for c
  have f: "f c = raw ! (i * nc + c)" if "c < nc" for c
    using row_index [OF assms(4) that] assms(2) by (simp add: f_def arr_get_def num_of_def)
  have nn: "\<forall>c<nc. f c \<noteq> NaN"
  proof (intro allI impI)
    fix c assume c: "c < nc"
    from row_index [OF assms(4) c] assms(2) have "raw ! (i * nc + c) \<in> set raw" by simp
    with assms(3) f [OF c] show "f c \<noteq> NaN" by simp
  qed
  have k: "k = fold (\<lambda>c best. if js_gt (f c) (f best) then c else best) [1..<nc] 0"
    by (simp add: k_def argmax_scan_def f_def)
  from scan_first_max [OF nn assms(1)] have
    1: "k < nc" and 2: "\<forall>c<nc. \<not> js_lt (f k) (f c)" and 3: "\<forall>c<k. js_lt (f c) (f k)"
    unfolding k by blast+
  from 1 2 3 f show ?thesis by (auto simp: less_trans)
qed

text \<open>
  Claim C6. What \<^verbatim>\<open>predict\<close> returns on a fitted model from the raw values the engine
  wrote. Outside the classifier objectives it is the raw values themselves. With a class
  list, under \<open>binary\<close> and \<open>cross_entropy\<close> row \<open>i\<close> gets the class at index 1 when its
  raw value is above 0.5 and the class at index 0 otherwise; under \<open>multiclass\<close> and
  \<open>multiclassova\<close> row \<open>i\<close> gets the class at the first index where its \<open>nrClass\<close> raw
  values (numbers, none of them NaN) are largest.
\<close>

theorem predict_decoding:
  assumes "m_fitted m" and "\<not> m_freed m" and "m_booster m = Some b"
    and "normalizeX X = Inr (xData, rows, cols)"
    and "Booster_predict b xData rows cols w = (Inr raw, w1)"
  shows "(objective_of m \<notin> set CLASSIFIER_OBJECTIVES \<longrightarrow> predict m X w = (Inr raw, w1)) \<and>
    (\<forall>cs. m_classes m = Some cs \<longrightarrow>
       ((objective_of m = JStr ''binary'' \<or> objective_of m = JStr ''cross_entropy'') \<and>
        rows \<le> length raw \<longrightarrow>
          predict m X w =
            (Inr (map (\<lambda>i. class_at cs (if js_gt (raw ! i) (Fin 0.5) then 1 else 0)) [0..<rows]), w1)) \<and>
       ((objective_of m = JStr ''multiclass'' \<or> objective_of m = JStr ''multiclassova'') \<and>
        0 < m_nrClass m \<and> rows * m_nrClass m \<le> length raw \<and> (\<forall>x\<in>set raw. x \<noteq> NaN) \<longrightarrow>
          (\<exists>ks. length ks = rows \<and> predict m X w = (Inr (map (class_at cs) ks), w1) \<and>
             (\<forall>i<rows. ks ! i < m_nrClass m \<and>
                (\<forall>c<m_nrClass m. \<not> js_lt (raw ! (i * m_nrClass m + ks ! i)) (raw ! (i * m_nrClass m + c))) \<and>
                (\<forall>c<ks ! i. js_lt (raw ! (i * m_nrClass m + c)) (raw ! (i * m_nrClass m + ks ! i)))))))"
proof (intro conjI allI impI)
  assume "objective_of m \<notin> set CLASSIFIER_OBJECTIVES"
  with assms show "predict m X w = (Inr raw, w1)"
    by (simp add: predict_def ensureFitted_def objective_of_def Let_def)
next
  fix cs assume cs: "m_classes m = Some cs"
    and o: "(objective_of m = JStr ''binary'' \<or> objective_of m = JStr ''cross_entropy'') \<and> rows \<le> length raw"
  then have c: "objective_of m \<in> set CLASSIFIER_OBJECTIVES" by (auto simp: CLASSIFIER_OBJECTIVES_def)
  have "decode_row (objective_of m) (m_nrClass m) raw i = (if js_gt (raw ! i) (Fin 0.5) then 1 else 0)"
    if "i < rows" for i
    using o that by (auto simp: decode_row_def threshold_index_def arr_get_def num_of_def)
  then have "map (\<lambda>i. class_at cs (decode_row (objective_of m) (m_nrClass m) raw i)) [0..<rows] =
      map (\<lambda>i. class_at cs (if js_gt (raw ! i) (Fin 0.5) then 1 else 0)) [0..<rows]"
    by simp
  with assms cs c show "predict m X w =
      (Inr (map (\<lambda>i. class_at cs (if js_gt (raw ! i) (Fin 0.5) then 1 else 0)) [0..<rows]), w1)"
    by (simp add: predict_def ensureFitted_def objective_of_def [symmetric] decode_def Let_def)
next
  fix cs assume cs: "m_classes m = Some cs"
    and o: "(objective_of m = JStr ''multiclass'' \<or> objective_of m = JStr ''multiclassova'') \<and>
        0 < m_nrClass m \<and> rows * m_nrClass m \<le> length raw \<and> (\<forall>x\<in>set raw. x \<noteq> NaN)"
  then have c: "objective_of m \<in> set CLASSIFIER_OBJECTIVES" by (auto simp: CLASSIFIER_OBJECTIVES_def)
  define ks where "ks = map (argmax_scan raw (m_nrClass m)) [0..<rows]"
  have d: "decode_row (objective_of m) (m_nrClass m) raw i = argmax_scan raw (m_nrClass m) i" for i
    using o by (auto simp: decode_row_def)
  have "map (\<lambda>i. class_at cs (decode_row (objective_of m) (m_nrClass m) raw i)) [0..<rows] =
      map (class_at cs) ks"
    by (simp add: d ks_def)
  with assms cs c have p: "predict m X w = (Inr (map (class_at cs) ks), w1)"
    by (simp add: predict_def ensureFitted_def objective_of_def [symmetric] decode_def Let_def)
  have "ks ! i < m_nrClass m \<and>
        (\<forall>c<m_nrClass m. \<not> js_lt (raw ! (i * m_nrClass m + ks ! i)) (raw ! (i * m_nrClass m + c))) \<and>
        (\<forall>c<ks ! i. js_lt (raw ! (i * m_nrClass m + c)) (raw ! (i * m_nrClass m + ks ! i)))"
    if i: "i < rows" for i
    using argmax_scan_first_max [of "m_nrClass m" rows raw i] o i by (simp add: ks_def)
  with p show "\<exists>ks. length ks = rows \<and> predict m X w = (Inr (map (class_at cs) ks), w1) \<and>
             (\<forall>i<rows. ks ! i < m_nrClass m \<and>
                (\<forall>c<m_nrClass m. \<not> js_lt (raw ! (i * m_nrClass m + ks ! i)) (raw ! (i * m_nrClass m + c))) \<and>
                (\<forall>c<ks ! i. js_lt (raw ! (i * m_nrClass m + c)) (raw ! (i * m_nrClass m + ks ! i))))"
    by (intro exI [of _ ks]) (simp add: ks_def)
qed

theorem predict_decoding_witness:
  "m_fitted classifier0 \<and> \<not> m_freed classifier0 \<and> m_classes classifier0 = Some [3, 7] \<and>
   objective_of classifier0 = JStr ''binary'' \<and>
   fst (predict classifier0 X0 (wasm_predicting [Fin 0.9, Fin 0.2])) = Inr [Fin 7, Fin 3] \<and>
   m_fitted classifier3 \<and> \<not> m_freed classifier3 \<and> m_classes classifier3 = Some [5, 6, 9] \<and>
   objective_of classifier3 = JStr ''multiclass'' \<and> m_nrClass classifier3 = 3 \<and>
   (\<exists>ks. length ks = 2 \<and> ks ! 0 < 3 \<and> ks ! 1 < 3 \<and>
      fst (predict classifier3 X0
        (wasm_predicting [Fin 0.2, Fin 0.5, Fin 0.3, Fin 0.4, Fin 0.4, Fin 0.2])) =
      Inr (map (class_at [5, 6, 9]) ks)) \<and>
   fst (predict classifier3 X0
        (wasm_predicting [Fin 0.2, Fin 0.5, Fin 0.3, Fin 0.4, Fin 0.4, Fin 0.2])) = Inr [Fin 6, Fin 5] \<and>
   m_fitted regressor0 \<and> \<not> m_freed regressor0 \<and>
   objective_of regressor0 \<notin> set CLASSIFIER_OBJECTIVES \<and>
   fst (predict regressor0 X0 (wasm_predicting [Fin 1.5, Fin 2.5])) = Inr [Fin 1.5, Fin 2.5]"
proof -
  let ?xd = "Float32Array [Fin 1, Fin 2, Fin 3, Fin 4]"
  let ?raw = "[Fin 0.2, Fin 0.5, Fin 0.3, Fin 0.4, Fin 0.4, Fin 0.2]"
  have x: "normalizeX X0 = Inr (?xd, 2, 2)"
    by (simp add: X0_def Let_def arr_get_def num_of_def)
  have p: "Booster_predict (Booster_loaded h) ?xd 2 2 (wasm_predicting ps) =
      (Inr ps, (wasm_predicting ps)\<lparr>trace := [BoosterPredict h ?xd 2 2 0 0 []], brk := 4\<rparr>)" for h ps
    by (simp add: Booster_predict_eq Booster_loaded_def wasm_predicting_def wasm0_def ok_reply_def
          from_handle_def Let_def)
  have c0: "m_fitted classifier0" "\<not> m_freed classifier0" "m_booster classifier0 = Some (Booster_loaded 4)"
    "m_classes classifier0 = Some [3, 7]" "objective_of classifier0 = JStr ''binary''"
    by (simp_all add: classifier0_def LGBModel_loaded_def objective_of_def obj_get_def js_or_def wrap32_def)
  have c3: "m_fitted classifier3" "\<not> m_freed classifier3" "m_booster classifier3 = Some (Booster_loaded 4)"
    "m_classes classifier3 = Some [5, 6, 9]" "objective_of classifier3 = JStr ''multiclass''"
    "m_nrClass classifier3 = 3"
    by (simp_all add: classifier3_def LGBModel_loaded_def objective_of_def obj_get_def js_or_def wrap32_def)
  have r0: "m_fitted regressor0" "\<not> m_freed regressor0" "m_booster regressor0 = Some (Booster_loaded 7)"
    "objective_of regressor0 \<notin> set CLASSIFIER_OBJECTIVES"
    by (simp_all add: regressor0_def LGBModel_loaded_def objective_of_def obj_get_def js_or_def
          CLASSIFIER_OBJECTIVES_def)
  have h0: "(objective_of classifier0 = JStr ''binary'' \<or> objective_of classifier0 = JStr ''cross_entropy'') \<and>
      2 \<le> length [Fin 0.9, Fin 0.2]"
    using c0 by simp
  from predict_decoding [OF c0(1,2,3) x p, of "[Fin 0.9, Fin 0.2]", THEN conjunct2, rule_format, OF c0(4),
      THEN conjunct1, rule_format, OF h0]
  have 1: "fst (predict classifier0 X0 (wasm_predicting [Fin 0.9, Fin 0.2])) = Inr [Fin 7, Fin 3]"
    by (simp add: class_at_def arr_get_def js_gt_def upt_rec)
  have h3: "(objective_of classifier3 = JStr ''multiclass'' \<or> objective_of classifier3 = JStr ''multiclassova'') \<and>
        0 < m_nrClass classifier3 \<and> 2 * m_nrClass classifier3 \<le> length ?raw \<and> (\<forall>x\<in>set ?raw. x \<noteq> NaN)"
    using c3 by simp
  from predict_decoding [OF c3(1,2,3) x p, of ?raw, THEN conjunct2, rule_format, OF c3(4),
      THEN conjunct2, rule_format, OF h3]
  obtain ks where ks: "length ks = 2"
    "predict classifier3 X0 (wasm_predicting ?raw) =
       (Inr (map (class_at [5, 6, 9]) ks),
        (wasm_predicting ?raw)\<lparr>trace := [BoosterPredict 4 ?xd 2 2 0 0 []], brk := 4\<rparr>)"
    "\<forall>i<2. ks ! i < m_nrClass classifier3 \<and>
        (\<forall>c<m_nrClass classifier3. \<not> js_lt (?raw ! (i * m_nrClass classifier3 + ks ! i))
            (?raw ! (i * m_nrClass classifier3 + c))) \<and>
        (\<forall>c<ks ! i. js_lt (?raw ! (i * m_nrClass classifier3 + c))
            (?raw ! (i * m_nrClass classifier3 + ks ! i)))"
    by blast
  from ks(3) c3(6) have "ks ! 0 < 3" "ks ! 1 < 3" by simp_all
  with ks(1,2)
  have 2: "\<exists>ks. length ks = 2 \<and> ks ! 0 < 3 \<and> ks ! 1 < 3 \<and>
      fst (predict classifier3 X0 (wasm_predicting ?raw)) = Inr (map (class_at [5, 6, 9]) ks)"
    by (intro exI [of _ ks]) simp
  have 3: "fst (predict classifier3 X0 (wasm_predicting ?raw)) = Inr [Fin 6, Fin 5]"
    by code_simp
  from predict_decoding [OF r0(1,2,3) x p, of "[Fin 1.5, Fin 2.5]", THEN conjunct1, rule_format, OF r0(4)]
  have 4: "fst (predict regressor0 X0 (wasm_predicting [Fin 1.5, Fin 2.5])) = Inr [Fin 1.5, Fin 2.5]"
    by simp
  from c0 c3 r0 1 2 3 4 show ?thesis by blast
qed

subsection \<open>The class list\<close>

lemma label_inj [simp]: "label a = label b \<longleftrightarrow> a = b"
  by (simp add: label_def)

lemma label_image [simp]: "label z \<in> label ` S \<longleftrightarrow> z \<in> S"
  by (auto simp: label_def)

lemma collect_labels_ints:
  "collect_labels (map label zs) i (map label us) =
     Inr (map label (fold (\<lambda>z u. set_add u z) zs us))"
proof (induction zs arbitrary: i us)
  case Nil
  then show ?case by simp
next
  case (Cons z zs)
  have "set_add (map label us) (label z) = map label (set_add us z)"
    by (simp add: set_add_def)
  moreover have "js_strict_eq (label z) (Math_floor (label z))"
    by (simp add: js_strict_eq_def label_def)
  ultimately show ?case using Cons [of "Suc i" "set_add us z"] by simp
qed

lemma insert_by_ints:
  "insert_by js_sub (label z) (map label zs) = map label (insort z zs)"
  by (induction zs) (auto simp: label_def js_gt_def)

lemma array_sort_ints: "array_sort js_sub (map label zs) = map label (sort zs)"
  by (induction zs) (simp_all add: insert_by_ints)

lemma wrap32_id: "- (2 ^ 31) \<le> z \<Longrightarrow> z < 2 ^ 31 \<Longrightarrow> wrap32 z = z"
proof -
  assume a: "- (2 ^ 31) \<le> z" "z < 2 ^ 31"
  show ?thesis
  proof (cases "0 \<le> z")
    case True
    with a have "z mod 2 ^ 32 = z" by simp
    with a show ?thesis by (simp add: wrap32_def Let_def)
  next
    case False
    with a have "(z + 2 ^ 32) mod 2 ^ 32 = z + 2 ^ 32"
      by (intro mod_pos_pos_trivial) simp_all
    then have "z mod 2 ^ 32 = z + 2 ^ 32" by simp
    with a False show ?thesis by (simp add: wrap32_def Let_def)
  qed
qed

lemma ToInt32_label: "ToInt32 (label z) = wrap32 z"
  by (simp add: label_def)



lemma unique_ints:
  "distinct (fold (\<lambda>z u. set_add u z) zs []) \<and> set (fold (\<lambda>z u. set_add u z) zs []) = set zs"
  using fold_set_add [of zs "[]"] by simp

lemma sort_unique_ints:
  "sort (fold (\<lambda>z u. set_add u z) zs []) = sorted_list_of_set (set zs)"
proof -
  let ?s = "sort (fold (\<lambda>z u. set_add u z) zs [])"
  have "sorted ?s" "distinct ?s" "set ?s = set zs"
    using unique_ints [of zs] by simp_all
  then show ?thesis
    by (metis sorted_list_of_set.idem_if_sorted_distinct)
qed

text \<open>\<^verbatim>\<open>classMap\<close> of a list without repetitions sends each element to its index.\<close>

lemma classMap_upto:
  assumes "distinct srt"
  shows "n \<le> length srt \<Longrightarrow> j < n \<Longrightarrow>
           fold (\<lambda>i mp. mp(srt ! i \<mapsto> i)) [0..<n] Map.empty (srt ! j) = Some j"
proof (induction n)
  case 0
  then show ?case by simp
next
  case (Suc n)
  show ?case
  proof (cases "j = n")
    case True
    then show ?thesis by simp
  next
    case False
    with Suc.prems have j: "j < n" and n: "n < length srt" by simp_all
    with assms have "srt ! j \<noteq> srt ! n" by (simp add: nth_eq_iff_index_eq)
    with Suc.IH [OF _ j] n show ?thesis by simp
  qed
qed

lemma classMap_index:
  assumes "distinct srt" and "v \<in> set srt"
  shows "\<exists>j. classMap srt v = Some j \<and> j < length srt \<and> srt ! j = v"
proof -
  from assms(2) obtain j where j: "j < length srt" "srt ! j = v"
    by (auto simp: in_set_conv_nth)
  with classMap_upto [OF assms(1) le_refl j(1)] show ?thesis
    by (auto simp: classMap_def)
qed

text \<open>The label block on integer labels inside the 32-bit range.\<close>

lemma prepare_labels_ints:
  assumes "obj \<in> set CLASSIFIER_OBJECTIVES" and "\<forall>z\<in>set zs. - (2 ^ 31) \<le> z \<and> z < 2 ^ 31"
  defines "cs \<equiv> sorted_list_of_set (set zs)"
  shows "\<exists>pos. prepare_labels obj (map label zs) m =
           Inr (m\<lparr>m_nrClass := card (set zs), m_classes := Some cs\<rparr>,
                Float32Array (map (\<lambda>p. Fin (real p)) pos)) \<and>
           length pos = length zs \<and>
           (\<forall>i<length zs. pos ! i < length cs \<and> cs ! (pos ! i) = zs ! i)"
proof -
  have c: "collect_labels (map label zs) 0 [] = Inr (map label (fold (\<lambda>z u. set_add u z) zs []))"
    using collect_labels_ints [of zs 0 "[]"] by simp
  have s: "array_sort js_sub (map label (fold (\<lambda>z u. set_add u z) zs [])) = map label cs"
    by (simp add: array_sort_ints sort_unique_ints cs_def)
  have r: "\<forall>z\<in>set cs. wrap32 z = z"
    using assms(2) by (auto simp: cs_def intro: wrap32_id)
  then have t: "map ToInt32 (map label cs) = cs"
    by (simp add: ToInt32_label map_idI)
  have n: "length cs = card (set zs)" by (simp add: cs_def)
  have d: "distinct (map label cs)" by (simp add: cs_def distinct_map inj_on_def)
  have "\<exists>j. classMap (map label cs) (label z) = Some j \<and> j < length cs \<and> cs ! j = z"
    if "z \<in> set zs" for z
  proof -
    from that have "label z \<in> set (map label cs)" by (simp add: cs_def)
    from classMap_index [OF d this] show ?thesis by auto
  qed
  then have "\<forall>z\<in>set zs. \<exists>j. classMap (map label cs) (label z) = Some j \<and> j < length cs \<and> cs ! j = z"
    by blast
  then obtain f where f: "\<forall>z\<in>set zs. classMap (map label cs) (label z) = Some (f z) \<and>
      f z < length cs \<and> cs ! (f z) = z"
    by metis
  define pos where "pos = map f zs"
  have "remap (map label cs) (map label zs) = Float32Array (map (\<lambda>p. Fin (real p)) pos)"
    using f by (simp add: remap_def pos_def comp_def)
  with assms(1) c s t n
  have "prepare_labels obj (map label zs) m =
           Inr (m\<lparr>m_nrClass := card (set zs), m_classes := Some cs\<rparr>,
                Float32Array (map (\<lambda>p. Fin (real p)) pos))"
    by (simp add: prepare_labels_def Let_def)
  moreover have "length pos = length zs" by (simp add: pos_def)
  moreover have "\<forall>i<length zs. pos ! i < length cs \<and> cs ! (pos ! i) = zs ! i"
    using f by (simp add: pos_def)
  ultimately show ?thesis by blast
qed


lemma scan_range: "fold (\<lambda>c best. if P c best then c else best) xs b \<in> insert b (set xs)"
  by (induction xs arbitrary: b) auto

lemma argmax_scan_bound: "argmax_scan raw nc i < max nc 1"
proof -
  have "argmax_scan raw nc i \<in> insert 0 (set [1..<nc])"
    unfolding argmax_scan_def by (rule scan_range)
  then show ?thesis by auto
qed

lemma decode_row_bound:
  assumes "2 \<le> n \<or> ((obj = JStr ''multiclass'' \<or> obj = JStr ''multiclassova'') \<and> 1 \<le> n)"
  shows "decode_row obj n raw i < n"
  using assms argmax_scan_bound [of raw n i]
  by (auto simp: decode_row_def threshold_index_def)

lemma predict_values:
  assumes "predict m X w = (Inr res, w1)"
    and "objective_of m \<in> set CLASSIFIER_OBJECTIVES"
    and "m_classes m = Some cs" and "m_nrClass m = length cs"
    and "2 \<le> length cs \<or>
         ((objective_of m = JStr ''multiclass'' \<or> objective_of m = JStr ''multiclassova'') \<and> 1 \<le> length cs)"
  shows "set res \<subseteq> label ` set cs"
proof -
  from assms(1,2,3,4) obtain raw rows where
    res: "res = map (\<lambda>i. class_at cs (decode_row (objective_of m) (length cs) raw i)) [0..<rows]"
    by (auto simp: predict_def objective_of_def [symmetric] decode_def Let_def
          split: sum.splits prod.splits option.splits if_splits)
  have "class_at cs (decode_row (objective_of m) (length cs) raw i) \<in> label ` set cs" for i
    using decode_row_bound [OF assms(5), of raw i]
    by (simp add: class_at_def arr_get_def label_def)
  with res show ?thesis by auto
qed

text \<open>
  Claim C1, as the code has it. After a call of \<^verbatim>\<open>fit\<close> under a classifier objective
  that returned normally, on integer labels inside the range of a 32-bit signed integer:
  the class list is the sorted list of the distinct labels; the labels sent to the engine
  are the positions of the training labels in that list; and when the list has at least
  two entries (one is enough under the multiclass objectives) every value \<^verbatim>\<open>predict\<close>
  returns is an entry of the list.
\<close>

theorem classes_are_sorted_distinct_labels:
  assumes "fit rt m X (map label zs) w = Some (Inr u, m', w')"
    and "objective_of m' \<in> set CLASSIFIER_OBJECTIVES"
    and "\<forall>z\<in>set zs. - (2 ^ 31) \<le> z \<and> z < 2 ^ 31"
  shows "m_classes m' = Some (sorted_list_of_set (set zs)) \<and>
         m_nrClass m' = card (set zs) \<and>
         (\<exists>pos d. length pos = length zs \<and>
            (\<forall>i<length zs. pos ! i < card (set zs) \<and> sorted_list_of_set (set zs) ! (pos ! i) = zs ! i) \<and>
            DatasetSetField d ''label'' (Float32Array (map (\<lambda>p. Fin (real p)) pos)) (length zs) 0
              \<in> set (trace w')) \<and>
         (\<forall>X' w1 res w2.
            predict m' X' w1 = (Inr res, w2) \<and>
            (2 \<le> card (set zs) \<or>
             ((objective_of m' = JStr ''multiclass'' \<or> objective_of m' = JStr ''multiclassova'') \<and>
              1 \<le> card (set zs))) \<longrightarrow>
            set res \<subseteq> label ` set zs)"
proof -
  define cs where "cs = sorted_list_of_set (set zs)"
  have len: "length cs = card (set zs)" and set: "set cs = set zs" by (simp_all add: cs_def)
  from assms(1) obtain m1 w1 xData rows cols m3 yTrain b where
    m1: "resolveTask m (map label zs) = Inr m1"
    and L: "prepare_labels (objective_of m1) (map label zs) (m1\<lparr>m_booster := None\<rparr>) = Inr (m3, yTrain)"
    and T: "train xData rows cols
         (paramStr_of rt (build_lgbParams (m_params m3) (objective_of m1) (m_nrClass m3)))
         yTrain (ToNumber rt (js_or (obj_get (m_params m3) ''numRound'') (JNum (Fin 100)))) w1
       = Some (Inr b, w')"
    and m': "m' = m3\<lparr>m_booster := Some b, m_fitted := True\<rparr>"
    by (rule fit_success)
  from prepare_labels_fields(4) [OF L] m' have "objective_of m' = objective_of m1"
    by (simp add: objective_of_def)
  with assms(2) have o: "objective_of m1 \<in> set CLASSIFIER_OBJECTIVES" by simp
  from prepare_labels_ints [OF o assms(3), of "m1\<lparr>m_booster := None\<rparr>"] L obtain pos where
    m3: "m3 = m1\<lparr>m_booster := None, m_nrClass := card (set zs), m_classes := Some cs\<rparr>"
    and y: "yTrain = Float32Array (map (\<lambda>p. Fin (real p)) pos)"
    and pl: "length pos = length zs"
    and pos: "\<forall>i<length zs. pos ! i < length cs \<and> cs ! (pos ! i) = zs ! i"
    by (auto simp: cs_def)
  from m' m3 have c: "m_classes m' = Some cs" and n: "m_nrClass m' = card (set zs)" by simp_all
  from train_success [OF T]
  have "\<exists>d. DatasetSetField d ''label'' yTrain (f32_length yTrain) 0 \<in> set (trace w')"
    by (elim exE conjE) (simp, blast)
  with y pl obtain d where
    "DatasetSetField d ''label'' (Float32Array (map (\<lambda>p. Fin (real p)) pos)) (length zs) 0
       \<in> set (trace w')"
    by auto
  with pl pos have sent: "\<exists>pos d. length pos = length zs \<and>
      (\<forall>i<length zs. pos ! i < card (set zs) \<and> cs ! (pos ! i) = zs ! i) \<and>
      DatasetSetField d ''label'' (Float32Array (map (\<lambda>p. Fin (real p)) pos)) (length zs) 0
        \<in> set (trace w')"
    unfolding len by blast
  have "set res \<subseteq> label ` set zs"
    if "predict m' X' w1 = (Inr res, w2)"
      and "2 \<le> card (set zs) \<or>
        ((objective_of m' = JStr ''multiclass'' \<or> objective_of m' = JStr ''multiclassova'') \<and>
         1 \<le> card (set zs))"
    for X' w1 res w2
    using predict_values [OF that(1) assms(2) c] that(2) n len set by simp
  with c n sent show ?thesis unfolding cs_def by blast
qed

lemma x4: "normalizeX X4 =
    Inr (Float32Array [Fin 1, Fin 2, Fin 3, Fin 4, Fin 5, Fin 6, Fin 7, Fin 8], 4, 2)"
  by (simp add: X4_def Let_def arr_get_def num_of_def)

theorem classes_are_sorted_distinct_labels_witness:
  "(case fit rt0 binary_default X4 (map label [3, 3, 7, 7]) wasm0 of
      Some (Inr u, m', w') \<Rightarrow>
        objective_of m' \<in> set CLASSIFIER_OBJECTIVES \<and>
        m_classes m' = Some [3, 7] \<and> m_nrClass m' = 2 \<and>
        (\<exists>pos d. length pos = 4 \<and>
           DatasetSetField d ''label'' (Float32Array (map (\<lambda>p. Fin (real p)) pos)) 4 0
             \<in> set (trace w')) \<and>
        fst (predict m' X4 (wasm_predicting [Fin 0.9, Fin 0.2, Fin 0.7, Fin 0.1])) =
          Inr [Fin 7, Fin 3, Fin 7, Fin 3]
    | _ \<Rightarrow> False)"
proof -
  let ?zs = "[3, 3, 7, 7] :: int list"
  define uq where "uq = map label (fold (\<lambda>z u. set_add u z) ?zs [])"
  define M where "M = binary_default\<lparr>m_nrClass := length (array_sort js_sub uq),
      m_classes := Some (map ToInt32 (array_sort js_sub uq)),
      m_booster := Some (Booster_loaded 7), m_fitted := True\<rparr>"
  have r: "resolveTask binary_default (map label ?zs) = Inr binary_default"
    by (simp add: resolveTask_def binary_default_def LGBModel_new_def obj_get_def)
  have o: "objective_of binary_default \<in> set CLASSIFIER_OBJECTIVES"
    by (simp add: binary_default_def LGBModel_new_def objective_of_def obj_get_def js_or_def
          CLASSIFIER_OBJECTIVES_def)
  have c: "collect_labels (map label ?zs) 0 [] = Inr uq"
    unfolding uq_def using collect_labels_ints [of ?zs 0 "[]"] by simp
  have "\<exists>w'. fit rt0 binary_default X4 (map label ?zs) wasm0 = Some (Inr (), M, w')"
    unfolding M_def
    by (rule classifier_fit_ok [OF _ r o _ c, where N = 100 and cols = 2])
       (simp_all add: binary_default_def LGBModel_new_def obj_get_def js_or_def x4 wasm0_def)
  then obtain w' where e: "fit rt0 binary_default X4 (map label ?zs) wasm0 = Some (Inr (), M, w')"
    by blast
  have oM: "objective_of M \<in> set CLASSIFIER_OBJECTIVES"
    using o by (simp add: M_def objective_of_def)
  have rg: "\<forall>z\<in>set ?zs. - (2 ^ 31) \<le> z \<and> z < 2 ^ 31" by simp
  have s: "sorted_list_of_set (set ?zs) = [3, 7]"
    by (simp add: sorted_list_of_set_sort_remdups)
  have cd: "card (set ?zs) = 2" by simp
  note T = classes_are_sorted_distinct_labels [OF e oM rg, unfolded s cd]
  from T have cl: "m_classes M = Some [3, 7]" and nc: "m_nrClass M = 2" by blast+
  from T obtain pos d where pd: "length pos = length ?zs"
    "DatasetSetField d ''label'' (Float32Array (map (\<lambda>p. Fin (real p)) pos)) (length ?zs) 0
       \<in> set (trace w')"
    by blast
  have sent: "\<exists>pos d. length pos = 4 \<and>
           DatasetSetField d ''label'' (Float32Array (map (\<lambda>p. Fin (real p)) pos)) 4 0
             \<in> set (trace w')"
  proof -
    have l4: "length ?zs = 4" by simp
    from pd [unfolded l4] show ?thesis by blast
  qed
  have b: "m_booster M = Some (Booster_loaded 7)" "m_fitted M" "\<not> m_freed M"
    "obj_get (m_params M) ''objective'' = JStr ''binary''"
    by (simp_all add: M_def binary_default_def LGBModel_new_def obj_get_def)
  have p: "fst (predict M X4 (wasm_predicting [Fin 0.9, Fin 0.2, Fin 0.7, Fin 0.1])) =
          Inr [Fin 7, Fin 3, Fin 7, Fin 3]"
    using cl nc b
    by (simp add: predict_def ensureFitted_def x4 Booster_predict_eq Booster_loaded_def
          wasm_predicting_def wasm0_def ok_reply_def js_or_def CLASSIFIER_OBJECTIVES_def
          decode_def decode_row_def threshold_index_def class_at_def arr_get_def num_of_def
          js_gt_def Let_def upt_rec)
  from e oM cl nc sent p show ?thesis by simp
qed

text \<open>
  The claim as written fails for a label outside the 32-bit range: the class list is an
  \<^verbatim>\<open>Int32Array\<close>, which stores \<open>2^31\<close> as \<open>- 2^31\<close>.
\<close>

theorem classes_are_sorted_distinct_labels_counterexample:
  "(case fit rt0 binary_default X0 (map label [0, 2147483648]) wasm0 of
      Some (Inr u, m', w') \<Rightarrow> m_classes m' = Some [0, - 2147483648]
    | _ \<Rightarrow> False)"
proof -
  let ?zs = "[0, 2147483648] :: int list"
  have r: "resolveTask binary_default (map label ?zs) = Inr binary_default"
    by (simp add: resolveTask_def binary_default_def LGBModel_new_def obj_get_def)
  have o: "objective_of binary_default \<in> set CLASSIFIER_OBJECTIVES"
    by (simp add: binary_default_def LGBModel_new_def objective_of_def obj_get_def js_or_def
          CLASSIFIER_OBJECTIVES_def)
  have c: "collect_labels (map label ?zs) 0 [] = Inr (map label ?zs)"
    using collect_labels_ints [of ?zs 0 "[]"] by (simp add: set_add_def)
  have x: "normalizeX X0 = Inr (Float32Array [Fin 1, Fin 2, Fin 3, Fin 4], length (map label ?zs), 2)"
    by (simp add: X0_def Let_def arr_get_def num_of_def)
  have "\<exists>w'. fit rt0 binary_default X0 (map label ?zs) wasm0 =
      Some (Inr (), binary_default\<lparr>m_nrClass := length (array_sort js_sub (map label ?zs)),
          m_classes := Some (map ToInt32 (array_sort js_sub (map label ?zs))),
          m_booster := Some (Booster_loaded 7), m_fitted := True\<rparr>, w')"
    by (rule classifier_fit_ok [OF _ r o x c, where N = 100])
       (simp_all add: binary_default_def LGBModel_new_def obj_get_def js_or_def wasm0_def)
  then obtain w' where e: "fit rt0 binary_default X0 (map label ?zs) wasm0 =
      Some (Inr (), binary_default\<lparr>m_nrClass := length (array_sort js_sub (map label ?zs)),
          m_classes := Some (map ToInt32 (array_sort js_sub (map label ?zs))),
          m_booster := Some (Booster_loaded 7), m_fitted := True\<rparr>, w')"
    by blast
  have "map ToInt32 (array_sort js_sub (map label ?zs)) = [0, - 2147483648]"
    by (subst array_sort_ints) (simp add: ToInt32_label wrap32_def)
  with e show ?thesis by simp
qed

subsection \<open>The module loader\<close>

text \<open>
  What holds of the loader at every moment, and what a run keeps: a module that is there
  stays, and so does the promise; a call that got the module got the one that is there at
  the end.
\<close>

lemma run_invariant:
  assumes "run evs s = (ts, s')"
    and "\<forall>m. wasmModule s = Some m \<longleftrightarrow> loading s = Some (Fulfilled m)"
    and "inits s = (if loading s = None then 0 else 1)"
  shows "(\<forall>m. wasmModule s' = Some m \<longleftrightarrow> loading s' = Some (Fulfilled m)) \<and>
         inits s' = (if loading s' = None then 0 else 1) \<and>
         (\<forall>m. wasmModule s = Some m \<longrightarrow> wasmModule s' = Some m) \<and>
         (loading s \<noteq> None \<longrightarrow> loading s' \<noteq> None) \<and>
         (ts \<noteq> [] \<longrightarrow> loading s' \<noteq> None) \<and>
         (ts = [] \<and> loading s = None \<longrightarrow> loading s' = None) \<and>
         (\<forall>m. Ready m \<in> set ts \<longrightarrow> wasmModule s' = Some m)"
  using assms
proof (induction evs arbitrary: s ts)
  case Nil
  then show ?case by simp
next
  case (Cons ev evs)
  show ?case
  proof (cases ev)
    case LoadCall
    obtain t s1 where l: "loadLGB s = (t, s1)" by (cases "loadLGB s")
    obtain ts1 where r: "run evs s1 = (ts1, s')" and ts: "ts = t # ts1"
      using Cons.prems(1) LoadCall l by (auto split: prod.splits)
    have i1: "\<forall>m. wasmModule s1 = Some m \<longleftrightarrow> loading s1 = Some (Fulfilled m)"
      and i2: "inits s1 = (if loading s1 = None then 0 else 1)"
      and k1: "\<forall>m. wasmModule s = Some m \<longrightarrow> wasmModule s1 = Some m"
      and k2: "loading s1 \<noteq> None"
      and k3: "\<forall>m. t = Ready m \<longrightarrow> wasmModule s1 = Some m"
      using l Cons.prems(2,3)
      by (auto simp: loadLGB_def split: option.splits if_splits)
    from Cons.IH [OF r i1 i2] ts k1 k2 k3 show ?thesis by auto
  next
    case (InitDone m)
    define s1 where "s1 = init_done m s"
    have r: "run evs s1 = (ts, s')" using Cons.prems(1) InitDone by (simp add: s1_def)
    have i1: "\<forall>m. wasmModule s1 = Some m \<longleftrightarrow> loading s1 = Some (Fulfilled m)"
      and i2: "inits s1 = (if loading s1 = None then 0 else 1)"
      and k1: "\<forall>m. wasmModule s = Some m \<longrightarrow> wasmModule s1 = Some m"
      and k2: "loading s \<noteq> None \<longrightarrow> loading s1 \<noteq> None"
      and k3: "loading s = None \<longrightarrow> loading s1 = None"
      using Cons.prems(2,3) by (auto simp: s1_def init_done_def)
    from Cons.IH [OF r i1 i2] k1 k2 k3 show ?thesis by auto
  next
    case InitFailed
    define s1 where "s1 = init_failed s"
    have r: "run evs s1 = (ts, s')" using Cons.prems(1) InitFailed by (simp add: s1_def)
    have i1: "\<forall>m. wasmModule s1 = Some m \<longleftrightarrow> loading s1 = Some (Fulfilled m)"
      and i2: "inits s1 = (if loading s1 = None then 0 else 1)"
      and k1: "\<forall>m. wasmModule s = Some m \<longrightarrow> wasmModule s1 = Some m"
      and k2: "loading s \<noteq> None \<longrightarrow> loading s1 \<noteq> None"
      and k3: "loading s = None \<longrightarrow> loading s1 = None"
      using Cons.prems(2,3) by (auto simp: s1_def init_failed_def)
    from Cons.IH [OF r i1 i2] k1 k2 k3 show ?thesis by auto
  qed
qed

text \<open>
  Claim C4. In every run of a process the engine is initialised once, with the first call
  of \<^verbatim>\<open>loadLGB\<close>, and never again. Once the initialisation has produced a module,
  every call, whether made before, during or after it, has that module as its result, so
  no two calls resolve to different modules. \<^verbatim>\<open>getWasm\<close> throws exactly as long as no
  call has been resolved.
\<close>

theorem loader_single_instance:
  assumes "run evs loader0 = (ts, s)"
  shows "inits s = (if ts = [] then 0 else 1) \<and>
         (\<forall>m. wasmModule s = Some m \<longrightarrow> (\<forall>t\<in>set ts. resolved s t = Some m)) \<and>
         (\<forall>t\<in>set ts. \<forall>t'\<in>set ts. \<forall>a b.
            resolved s t = Some a \<and> resolved s t' = Some b \<longrightarrow> a = b) \<and>
         (getWasm s = Inl NotLoaded \<longleftrightarrow> (\<forall>t\<in>set ts. resolved s t = None))"
proof -
  from run_invariant [OF assms] have
    i1: "\<forall>m. wasmModule s = Some m \<longleftrightarrow> loading s = Some (Fulfilled m)"
    and i2: "inits s = (if loading s = None then 0 else 1)"
    and k1: "ts \<noteq> [] \<longrightarrow> loading s \<noteq> None"
    and k2: "ts = [] \<longrightarrow> loading s = None"
    and k3: "\<forall>m. Ready m \<in> set ts \<longrightarrow> wasmModule s = Some m"
    by (simp_all add: loader0_def)
  have res: "resolved s t = wasmModule s" if "t \<in> set ts" for t
  proof (cases t)
    case (Ready m)
    with that k3 show ?thesis by simp
  next
    case Shared
    show ?thesis
    proof (cases "wasmModule s")
      case None
      with i1 have "\<forall>m. loading s \<noteq> Some (Fulfilled m)" by auto
      with None Shared show ?thesis by (auto split: option.splits promise.splits)
    next
      case (Some m)
      with i1 have "loading s = Some (Fulfilled m)" by blast
      with Some Shared show ?thesis by simp
    qed
  qed
  have 1: "inits s = (if ts = [] then 0 else 1)" using i2 k1 k2 by auto
  have 2: "\<forall>m. wasmModule s = Some m \<longrightarrow> (\<forall>t\<in>set ts. resolved s t = Some m)"
    using res by simp
  have 3: "\<forall>t\<in>set ts. \<forall>t'\<in>set ts. \<forall>a b.
            resolved s t = Some a \<and> resolved s t' = Some b \<longrightarrow> a = b"
    using res by auto
  have 4: "getWasm s = Inl NotLoaded \<longleftrightarrow> (\<forall>t\<in>set ts. resolved s t = None)"
  proof (cases "wasmModule s")
    case None
    with res show ?thesis by (simp add: getWasm_def)
  next
    case (Some m)
    with i1 have "loading s \<noteq> None" by auto
    with k2 obtain t where "t \<in> set ts" by (cases ts) auto
    with res Some show ?thesis by (auto simp: getWasm_def)
  qed
  from 1 2 3 4 show ?thesis by blast
qed

theorem loader_single_instance_witness:
  "run [LoadCall, LoadCall, InitDone (5::nat), LoadCall] loader0 =
     ([Shared, Shared, Ready 5], \<lparr>wasmModule = Some 5, loading = Some (Fulfilled 5), inits = 1\<rparr>) \<and>
   resolved \<lparr>wasmModule = Some 5, loading = Some (Fulfilled 5), inits = 1\<rparr> Shared = Some (5::nat) \<and>
   getWasm \<lparr>wasmModule = Some (5::nat), loading = Some (Fulfilled 5), inits = 1\<rparr> \<noteq> Inl NotLoaded \<and>
   run [LoadCall, LoadCall] loader0 =
     ([Shared, Shared], \<lparr>wasmModule = None, loading = Some (Pending :: nat promise), inits = 1\<rparr>) \<and>
   getWasm \<lparr>wasmModule = None, loading = Some (Pending :: nat promise), inits = 1\<rparr> = Inl NotLoaded"
proof -
  have a: "run [LoadCall, LoadCall, InitDone (5::nat), LoadCall] loader0 =
     ([Shared, Shared, Ready 5], \<lparr>wasmModule = Some 5, loading = Some (Fulfilled 5), inits = 1\<rparr>)"
    by (simp add: loader0_def loadLGB_def init_done_def)
  have b: "run [LoadCall, LoadCall] loader0 =
     ([Shared, Shared], \<lparr>wasmModule = None, loading = Some (Pending :: nat promise), inits = 1\<rparr>)"
    by (simp add: loader0_def loadLGB_def)
  from loader_single_instance [OF a] loader_single_instance [OF b] a b show ?thesis
    by (simp add: getWasm_def)
qed

subsection \<open>Scratch blocks\<close>

text \<open>
  On a handle that is not disposed, the operations leave the scratch blocks as they found
  them, whether the engine accepts the call or reports a failure.
\<close>

lemma scratch_released_on_live_handles:
  "live (snd (withCString str (\<lambda>ptr. native c) w)) = live w"
  "live (snd (Dataset_new d r c' ps w)) = live w"
  "\<not> d_freed ds \<Longrightarrow> live (snd (Dataset_setLabel ds arr w)) = live w"
  "live (snd (Booster_new h ps w)) = live w"
  "\<not> b_freed b \<Longrightarrow> live (snd (Booster_update b w)) = live w"
  "\<not> b_freed b \<Longrightarrow> live (snd (Booster_predict b d r c' w)) = live w"
  "live (snd (Booster_loadModel bytes w)) = live w"
  by (simp_all add: Dataset_new_eq Dataset_setLabel_eq Booster_new_eq Booster_update_eq
        Booster_predict_eq Booster_loadModel_def wasm_ops Let_def split: prod.splits)

text \<open>
  Claim C5 does not hold of the code. \<^verbatim>\<open>predict\<close> and \<^verbatim>\<open>update\<close> allocate their
  blocks and then read \<^verbatim>\<open>this.handle\<close>; on a disposed booster the getter throws and the
  blocks are never freed. Here a booster is disposed, which leaves no block allocated;
  \<^verbatim>\<open>predict\<close> on it then throws with blocks 0, 1 and 2 allocated, and \<^verbatim>\<open>update\<close> on it
  throws with block 0 allocated.
\<close>

theorem disposed_booster_leaks_scratch_blocks:
  "live (snd (Booster_dispose (Booster_loaded 4) wasm0)) = [] \<and>
   Booster_predict (fst (Booster_dispose (Booster_loaded 4) wasm0)) (Float32Array [Fin 1, Fin 2]) 1 2
       (snd (Booster_dispose (Booster_loaded 4) wasm0)) =
     (Inl (AlreadyDisposed ''Booster''),
      wasm0\<lparr>trace := [BoosterFree 4], live := [2, 1, 0], brk := 4\<rparr>) \<and>
   Booster_update (fst (Booster_dispose (Booster_loaded 4) wasm0))
       (snd (Booster_dispose (Booster_loaded 4) wasm0)) =
     (Inl (AlreadyDisposed ''Booster''),
      wasm0\<lparr>trace := [BoosterFree 4], live := [0], brk := 1\<rparr>)"
  by (simp add: Booster_dispose_eq Booster_update_eq Booster_predict_eq Booster_loaded_def wasm0_def
        from_handle_def)

end
